theory Spec2Isabelle
  imports Main "HOL-Library.AList" "HOL-Library.Sublist"
begin

section \<open>JavaScript values\<close>

text \<open>
  The values that flow through \<^verbatim>\<open>TemplateManager.js\<close> and \<^verbatim>\<open>AlignmentScorer.js\<close>:
  what \<^verbatim>\<open>JSON.parse\<close> returns, plus \<^verbatim>\<open>undefined\<close>, which a caller can pass and
  which a read of an absent property yields. An object is the list of its own
  properties in enumeration order. Numbers carry an integer payload; the modelled
  code only tests them for truthiness.
\<close>

datatype jsval =
    Undefined
  | Null
  | Bool bool
  | Num int
  | Str string
  | Arr "jsval list"
  | Obj "(string \<times> jsval) list"

fun truthy :: "jsval \<Rightarrow> bool" where
  "truthy Undefined = False"
| "truthy Null = False"
| "truthy (Bool b) = b"
| "truthy (Num n) = (n \<noteq> 0)"
| "truthy (Str s) = (s \<noteq> [])"
| "truthy (Arr xs) = True"
| "truthy (Obj kvs) = True"

text \<open>\<^verbatim>\<open>a || b\<close>\<close>

definition js_or :: "jsval \<Rightarrow> jsval \<Rightarrow> jsval" where
  "js_or a b = (if truthy a then a else b)"

text \<open>A property read on \<^verbatim>\<open>undefined\<close> or \<^verbatim>\<open>null\<close> throws a TypeError.\<close>

definition nullish :: "jsval \<Rightarrow> bool" where
  "nullish v = (v = Undefined \<or> v = Null)"

text \<open>Decimal rendering of an array index.\<close>

fun show_nat :: "nat \<Rightarrow> string" where
  "show_nat n =
     (if n < 10 then [char_of (48 + n)]
      else show_nat (n div 10) @ [char_of (48 + n mod 10)])"

text \<open>
  The own enumerable properties that a spread \<^verbatim>\<open>{...v}\<close> copies: those of an object,
  the indexed elements of an array, the indexed characters of a string, and nothing
  for \<^verbatim>\<open>undefined\<close>, \<^verbatim>\<open>null\<close>, booleans and numbers.
\<close>

fun own_props :: "jsval \<Rightarrow> (string \<times> jsval) list" where
  "own_props (Obj kvs) = kvs"
| "own_props (Arr xs) = zip (map show_nat [0..<length xs]) xs"
| "own_props (Str s) = zip (map show_nat [0..<length s]) (map (\<lambda>c. Str [c]) s)"
| "own_props v = []"

text \<open>
  \<^verbatim>\<open>v.k\<close> for a value that is not nullish, where \<open>k\<close> is one of the member names
  that the modelled code spells out (\<^verbatim>\<open>meta\<close>, \<^verbatim>\<open>name\<close>, \<^verbatim>\<open>tags\<close>, \<^verbatim>\<open>templates\<close>,
  \<^verbatim>\<open>totalScore\<close>, ...): none of them is inherited by a parsed value, so each is
  an own property or absent. Reads with a computed name go through the dictionary
  operations below.
\<close>

definition js_get :: "jsval \<Rightarrow> string \<Rightarrow> jsval" where
  "js_get v k = (case map_of (own_props v) k of None \<Rightarrow> Undefined | Some x \<Rightarrow> x)"

text \<open>\<^verbatim>\<open>v?.k\<close>\<close>

definition js_get_opt :: "jsval \<Rightarrow> string \<Rightarrow> jsval" where
  "js_get_opt v k = (if nullish v then Undefined else js_get v k)"

text \<open>
  The order of the own properties of an object: the names that are array
  indices (the decimal rendering of a number below \<open>2\<^sup>3\<^sup>2 - 1\<close>) come first, in
  ascending order, then the other names in the order of their creation.
  \<open>array_index\<close> reads such a name, \<open>insert_prop\<close> creates a property that the
  object does not have yet, and \<open>define_prop\<close> is the definition of a property as
  an object literal, a spread and \<^verbatim>\<open>JSON.parse\<close> perform it: an existing own property
  keeps its place and takes the new value.
\<close>

definition digit :: "char \<Rightarrow> bool" where
  "digit c = (48 \<le> (of_char c :: int) \<and> (of_char c :: int) \<le> 57)"

definition array_index :: "string \<Rightarrow> int option" where
  "array_index s =
     (if s \<noteq> [] \<and> list_all digit s \<and> (s = ''0'' \<or> hd s \<noteq> CHR ''0'') then
        (let n = fold (\<lambda>c n. 10 * n + (of_char c - 48)) s (0::int)
         in if n < 4294967295 then Some n else None)
      else None)"

definition precedes :: "string \<Rightarrow> string \<Rightarrow> bool" where
  "precedes k k' =
     (case array_index k of
        None \<Rightarrow> False
      | Some n \<Rightarrow> (case array_index k' of None \<Rightarrow> True | Some m \<Rightarrow> n < m))"

fun insert_prop :: "string \<Rightarrow> 'a \<Rightarrow> (string \<times> 'a) list \<Rightarrow> (string \<times> 'a) list" where
  "insert_prop k x [] = [(k, x)]"
| "insert_prop k x (p # ps) =
     (if precedes k (fst p) then (k, x) # p # ps else p # insert_prop k x ps)"

definition define_prop :: "string \<Rightarrow> 'a \<Rightarrow> (string \<times> 'a) list \<Rightarrow> (string \<times> 'a) list" where
  "define_prop k x ps = (if map_of ps k \<noteq> None then AList.update k x ps else insert_prop k x ps)"

text \<open>
  Building an object literal: \<^verbatim>\<open>{...v}\<close> goes through the own property names of \<^verbatim>\<open>v\<close>
  and defines each one, with the value read from \<^verbatim>\<open>v\<close>, on what is already there;
  \<^verbatim>\<open>k: x\<close> defines one property.
\<close>

definition spread :: "jsval \<Rightarrow> (string \<times> jsval) list \<Rightarrow> (string \<times> jsval) list" where
  "spread v acc = fold (\<lambda>k a. define_prop k (js_get v k) a) (map fst (own_props v)) acc"

text \<open>
  \<^verbatim>\<open>JSON.parse(JSON.stringify(v))\<close>: a property holding \<^verbatim>\<open>undefined\<close> is dropped, an
  array element holding \<^verbatim>\<open>undefined\<close> becomes \<^verbatim>\<open>null\<close>.
\<close>

fun JSON_roundtrip :: "jsval \<Rightarrow> jsval" where
  "JSON_roundtrip (Arr xs) =
     Arr (map (\<lambda>x. if x = Undefined then Null else JSON_roundtrip x) xs)"
| "JSON_roundtrip (Obj kvs) =
     Obj (map (\<lambda>(k, x). (k, JSON_roundtrip x)) (filter (\<lambda>(k, x). x \<noteq> Undefined) kvs))"
| "JSON_roundtrip v = v"


text \<open>
  Errors are values. \<^verbatim>\<open>throw new Error(...)\<close> sites of the source are told apart by
  constructor; the errors raised by Node and by the language are \<open>SystemError\<close>
  (\<^verbatim>\<open>fs\<close>), \<open>SyntaxError\<close> (\<^verbatim>\<open>JSON.parse\<close>) and \<open>TypeError\<close>.
\<close>

datatype error =
    TemplateAlreadyExists string
  | InvalidCategory string
  | MissingMetaName
  | FailedToCreate
  | TemplateNotFound string
  | FailedToRead
  | FailedToUpdate
  | SystemError
  | SyntaxError
  | TypeError


section \<open>Objects used as dictionaries\<close>

text \<open>
  \<^verbatim>\<open>this.index.templates\<close>, \<^verbatim>\<open>filesystemTemplates\<close> and
  \<^verbatim>\<open>this.scoresData.projectScores\<close> are plain objects read and written with computed
  names, so the members every object inherits from \<^verbatim>\<open>Object.prototype\<close> show through:
  a read \<^verbatim>\<open>d[k]\<close> of a name that is not an own property finds the inherited member,
  and all of these are truthy (eleven functions and the accessor \<^verbatim>\<open>__proto__\<close>, which
  yields the prototype).
\<close>

definition object_prototype_names :: "string list" where
  "object_prototype_names =
     [''constructor'', ''__defineGetter__'', ''__defineSetter__'', ''hasOwnProperty'',
      ''__lookupGetter__'', ''__lookupSetter__'', ''isPrototypeOf'', ''propertyIsEnumerable'',
      ''toString'', ''valueOf'', ''__proto__'', ''toLocaleString'']"

text \<open>
  \<^verbatim>\<open>d[k] = x\<close> on a dictionary \<open>ps\<close> whose values are strings: an own property takes
  the new value, a new name becomes an own property, and the name \<^verbatim>\<open>__proto__\<close>
  reaches the inherited setter, which ignores a value that is not an object.
\<close>

definition assign_string :: "string \<Rightarrow> string \<Rightarrow> (string \<times> string) list \<Rightarrow> (string \<times> string) list" where
  "assign_string k x ps =
     (if map_of ps k \<noteq> None then AList.update k x ps
      else if k = ''__proto__'' then ps
      else insert_prop k x ps)"

text \<open>\<^verbatim>\<open>d[k]\<close> is truthy, for such a dictionary.\<close>

definition truthy_string_at :: "(string \<times> string) list \<Rightarrow> string \<Rightarrow> bool" where
  "truthy_string_at ps k =
     (case map_of ps k of Some x \<Rightarrow> x \<noteq> [] | None \<Rightarrow> k \<in> set object_prototype_names)"

text \<open>
  \<^verbatim>\<open>d[k] = x\<close> on a dictionary whose values are objects. The dictionary is the pair
  of its own properties and of the object that an earlier assignment to \<^verbatim>\<open>__proto__\<close>
  made its prototype (\<open>None\<close>: the prototype is still \<^verbatim>\<open>Object.prototype\<close>). With the
  name \<^verbatim>\<open>__proto__\<close> the inherited setter replaces the prototype and no property is
  created.
\<close>

definition assign_object ::
  "string \<Rightarrow> 'a \<Rightarrow> (string \<times> 'a) list \<times> 'a option \<Rightarrow> (string \<times> 'a) list \<times> 'a option" where
  "assign_object k x d =
     (case d of (ps, proto) \<Rightarrow>
        if map_of ps k \<noteq> None then (AList.update k x ps, proto)
        else if k = ''__proto__'' then (ps, Some x)
        else (insert_prop k x ps, proto))"

text \<open>
  \<^verbatim>\<open>v.hasOwnProperty(k)\<close> on a parsed value \<open>v\<close>. The method is the inherited one
  unless \<open>v\<close> is an object with an own property of that name, whose value, coming
  from JSON, is not a function, so that the call throws; so does the read of the
  method on \<^verbatim>\<open>undefined\<close> or \<^verbatim>\<open>null\<close>. An array and a string also own \<^verbatim>\<open>length\<close>.
\<close>

definition js_hasOwnProperty :: "jsval \<Rightarrow> string \<Rightarrow> error + bool" where
  "js_hasOwnProperty v k =
     (case v of
        Undefined \<Rightarrow> Inl TypeError
      | Null \<Rightarrow> Inl TypeError
      | Obj ps \<Rightarrow> if map_of ps ''hasOwnProperty'' \<noteq> None then Inl TypeError else Inr (map_of ps k \<noteq> None)
      | Arr xs \<Rightarrow> Inr (k = ''length'' \<or> map_of (own_props v) k \<noteq> None)
      | Str s \<Rightarrow> Inr (k = ''length'' \<or> map_of (own_props v) k \<noteq> None)
      | _ \<Rightarrow> Inr False)"


section \<open>The environment: clock, paths and files\<close>

text \<open>
  The text of a file: \<open>Json v\<close> is the text \<^verbatim>\<open>JSON.stringify(v, null, 2)\<close> (any text
  that parses is the rendering of some value), \<open>Garbage s\<close> a text on which
  \<^verbatim>\<open>JSON.parse\<close> throws.
\<close>

datatype file_text = Json jsval | Garbage string

definition JSON_parse :: "file_text \<Rightarrow> error + jsval" where
  "JSON_parse t = (case t of Json v \<Rightarrow> Inr (JSON_roundtrip v) | Garbage s \<Rightarrow> Inl SyntaxError)"

datatype node = File file_text | Dir

text \<open>
  \<^verbatim>\<open>fs.writeFileSync\<close> opens its target truncating it and writes in place. It either
  completes, or throws before touching the target, or throws after it started, and
  then the target holds the part that was written.
\<close>

datatype write_outcome = Completes | FailsUntouched | FailsPartial string

datatype fs_call = WriteFileSync string

record index_entry =
  category :: string
  name :: jsval
  description :: jsval
  version :: jsval
  path :: string
  createdAt :: jsval
  lastModified :: jsval
  tags :: jsval

record template_index =
  templates :: "(string \<times> index_entry) list"
  lastUpdated :: string
  index_version :: string

text \<open>
  What the index file holds: \<open>IndexJson i\<close> is the rendering of an index, an object
  whose \<^verbatim>\<open>templates\<close> is an object of entries of the shape above; \<open>IndexOther v\<close> is
  a text that parses to a value \<open>v\<close> of another shape (\<^verbatim>\<open>{}\<close>, \<^verbatim>\<open>null\<close>, a number);
  \<open>IndexGarbage s\<close> is a text on which \<^verbatim>\<open>JSON.parse\<close> throws, or a file that cannot
  be read.
\<close>

datatype index_text = IndexJson template_index | IndexOther jsval | IndexGarbage string

text \<open>
  The part of the world the template manager acts on. \<open>category_dirs w d\<close> is the
  listing of the directory at the path \<open>d\<close> (\<open>None\<close> when nothing is there),
  \<open>index_file\<close> the file at \<^verbatim>\<open>indexPath\<close>. \<open>write_outcome\<close> says how a write to a
  path ends, \<open>clock\<close> and \<open>ticks\<close> give the successive readings of
  \<^verbatim>\<open>new Date().toISOString()\<close>, and \<open>fs_log\<close> records the mutating calls made.
  A category path that exists is taken to be a directory, and the index file is
  kept apart from the listings: a template whose path is \<^verbatim>\<open>indexPath\<close> itself is
  outside the model.
\<close>

record world =
  category_dirs :: "string \<Rightarrow> (string \<times> node) list option"
  index_file :: "index_text option"
  write_outcome :: "string \<Rightarrow> write_outcome"
  clock :: "nat \<Rightarrow> string"
  ticks :: nat
  fs_log :: "fs_call list"

definition new_Date :: "world \<Rightarrow> string \<times> world" where
  "new_Date w = (clock w (ticks w), w\<lparr>ticks := Suc (ticks w)\<rparr>)"

text \<open>
  \<^verbatim>\<open>path.join\<close> (POSIX): the non-empty arguments are joined with \<^verbatim>\<open>/\<close> and the result is
  normalised. \<open>normalizeString\<close> goes through the segments: an empty segment and \<^verbatim>\<open>.\<close>
  are dropped, \<^verbatim>\<open>..\<close> removes the segment before it, or is kept, in a relative path,
  when there is none to remove.
\<close>

fun split_on :: "char \<Rightarrow> string \<Rightarrow> string list" where
  "split_on c [] = [Nil]"
| "split_on c (x # xs) =
     (if x = c then [] # split_on c xs
      else (case split_on c xs of [] \<Rightarrow> [x] # [] | s # ss \<Rightarrow> (x # s) # ss))"

fun join_with :: "string \<Rightarrow> string list \<Rightarrow> string" where
  "join_with sep [] = []"
| "join_with sep [s] = s"
| "join_with sep (s # ss) = s @ sep @ join_with sep ss"

definition normalize_step :: "bool \<Rightarrow> string \<Rightarrow> string list \<Rightarrow> string list" where
  "normalize_step allowAboveRoot seg res =
     (if seg = [] \<or> seg = ''.'' then res
      else if seg = ''..'' then
        (if res \<noteq> [] \<and> last res \<noteq> ''..'' then butlast res
         else if allowAboveRoot then res @ [''..'']
         else res)
      else res @ [seg])"

definition normalizeString :: "string \<Rightarrow> bool \<Rightarrow> string" where
  "normalizeString p allowAboveRoot =
     join_with ''/'' (fold (normalize_step allowAboveRoot) (split_on CHR ''/'' p) [])"

definition normalize :: "string \<Rightarrow> string" where
  "normalize p =
     (if p = [] then ''.''
      else
        (let isAbsolute = (hd p = CHR ''/'');
             trailingSeparator = (last p = CHR ''/'');
             q = normalizeString p (\<not> isAbsolute)
         in if q = [] then (if isAbsolute then ''/'' else if trailingSeparator then ''./'' else ''.'')
            else (if isAbsolute then ''/'' else []) @ q @ (if trailingSeparator then ''/'' else [])))"

definition path_join :: "string list \<Rightarrow> string" where
  "path_join args =
     (let parts = filter (\<lambda>a. a \<noteq> []) args
      in if parts = [] then ''.'' else normalize (join_with ''/'' parts))"

text \<open>
  The file a path names: the directory that holds it (everything before the last
  \<^verbatim>\<open>/\<close>; \<^verbatim>\<open>.\<close> when there is none, \<^verbatim>\<open>/\<close> for a file in the root) and its name there.
\<close>

definition split_path :: "string \<Rightarrow> string \<times> string" where
  "split_path p =
     (let segs = split_on CHR ''/'' p
      in if length segs \<le> 1 then (''.'', p)
         else (let d = join_with ''/'' (butlast segs)
               in (if d = [] then ''/'' else d, last segs)))"

definition existsSync_dir :: "world \<Rightarrow> string \<Rightarrow> bool" where
  "existsSync_dir w d = (category_dirs w d \<noteq> None)"

definition readdirSync :: "world \<Rightarrow> string \<Rightarrow> string list" where
  "readdirSync w d = (case category_dirs w d of None \<Rightarrow> [] | Some l \<Rightarrow> map fst l)"

definition readFileSync :: "world \<Rightarrow> string \<times> string \<Rightarrow> error + file_text" where
  "readFileSync w p =
     (case category_dirs w (fst p) of
        None \<Rightarrow> Inl SystemError
      | Some l \<Rightarrow>
          (case map_of l (snd p) of
             None \<Rightarrow> Inl SystemError
           | Some Dir \<Rightarrow> Inl SystemError
           | Some (File t) \<Rightarrow> Inr t))"

definition put_file :: "world \<Rightarrow> string \<times> string \<Rightarrow> file_text \<Rightarrow> world" where
  "put_file w p t =
     (case category_dirs w (fst p) of
        None \<Rightarrow> w
      | Some l \<Rightarrow> w\<lparr>category_dirs := (category_dirs w)(fst p := Some (AList.update (snd p) (File t) l))\<rparr>)"

text \<open>
  \<^verbatim>\<open>fs.writeFileSync(path, text)\<close> on a template file; \<open>ps\<close> is the path as a string,
  \<open>p\<close> the file it names. The result is the error thrown, if any.
\<close>

definition writeFileSync :: "world \<Rightarrow> string \<Rightarrow> string \<times> string \<Rightarrow> file_text \<Rightarrow> error option \<times> world" where
  "writeFileSync w ps p t =
     (let w1 = w\<lparr>fs_log := fs_log w @ [WriteFileSync ps]\<rparr> in
      case category_dirs w1 (fst p) of
        None \<Rightarrow> (Some SystemError, w1)
      | Some l \<Rightarrow>
          if map_of l (snd p) = Some Dir then (Some SystemError, w1)
          else (case write_outcome w1 ps of
                  Completes \<Rightarrow> (None, put_file w1 p t)
                | FailsUntouched \<Rightarrow> (Some SystemError, w1)
                | FailsPartial s \<Rightarrow> (Some SystemError, put_file w1 p (Garbage s))))"

text \<open>\<^verbatim>\<open>fs.writeFileSync(indexPath, text)\<close>\<close>

definition writeFileSync_index :: "world \<Rightarrow> string \<Rightarrow> template_index \<Rightarrow> error option \<times> world" where
  "writeFileSync_index w ps i =
     (let w1 = w\<lparr>fs_log := fs_log w @ [WriteFileSync ps]\<rparr> in
      case write_outcome w1 ps of
        Completes \<Rightarrow> (None, w1\<lparr>index_file := Some (IndexJson i)\<rparr>)
      | FailsUntouched \<Rightarrow> (Some SystemError, w1)
      | FailsPartial s \<Rightarrow> (Some SystemError, w1\<lparr>index_file := Some (IndexGarbage s)\<rparr>))"


section \<open>TemplateManager\<close>

text \<open>
  The manager: \<open>index\<close> is \<^verbatim>\<open>this.index\<close>, and \<open>templates_proto\<close> the prototype of the
  dictionary \<^verbatim>\<open>this.index.templates\<close>: \<open>None\<close> as long as it is \<^verbatim>\<open>Object.prototype\<close>,
  \<open>Some e\<close> once an assignment under the name \<^verbatim>\<open>__proto__\<close> made the entry \<open>e\<close> the
  prototype. \<^verbatim>\<open>JSON.stringify\<close> writes own properties only, so the prototype never
  reaches the index file.
\<close>

record template_manager =
  templatesDir :: string
  indexPath :: string
  index :: template_index
  templates_proto :: "index_entry option"

definition roundtrip_entry :: "index_entry \<Rightarrow> index_entry" where
  "roundtrip_entry e =
     e\<lparr>name := JSON_roundtrip (name e),
       description := JSON_roundtrip (description e),
       version := JSON_roundtrip (version e),
       createdAt := JSON_roundtrip (createdAt e),
       lastModified := JSON_roundtrip (lastModified e),
       tags := JSON_roundtrip (tags e)\<rparr>"

definition roundtrip_index :: "template_index \<Rightarrow> template_index" where
  "roundtrip_index i = i\<lparr>templates := map (\<lambda>(k, e). (k, roundtrip_entry e)) (templates i)\<rparr>"

text \<open>
  \<^verbatim>\<open>loadIndex\<close>: whatever the file parses to when it exists and parses, with no check
  of its shape; otherwise (absent, or the read or the parse threw and was caught) a
  fresh empty index.
\<close>

datatype loaded = Loaded template_index | LoadedOther jsval

definition loadIndex :: "world \<Rightarrow> loaded \<times> world" where
  "loadIndex w =
     (case index_file w of
        Some (IndexJson i) \<Rightarrow> (Loaded (roundtrip_index i), w)
      | Some (IndexOther v) \<Rightarrow> (LoadedOther (JSON_roundtrip v), w)
      | _ \<Rightarrow>
          (let (t, w1) = new_Date w
           in (Loaded \<lparr>templates = [], lastUpdated = t, index_version = ''1.0.0''\<rparr>, w1)))"

text \<open>\<^verbatim>\<open>saveIndex\<close>: returns \<^verbatim>\<open>true\<close>, or \<^verbatim>\<open>false\<close> when the write threw.\<close>

definition saveIndex :: "template_manager \<Rightarrow> world \<Rightarrow> bool \<times> template_manager \<times> world" where
  "saveIndex tm w =
     (let (t, w1) = new_Date w;
          tm1 = tm\<lparr>index := (index tm)\<lparr>lastUpdated := t\<rparr>\<rparr>
      in case writeFileSync_index w1 (indexPath tm1) (index tm1) of
           (None, w2) \<Rightarrow> (True, tm1, w2)
         | (Some e, w2) \<Rightarrow> (False, tm1, w2))"

text \<open>
  \<^verbatim>\<open>getTemplatePath(id, category = null)\<close>: \<open>template_path\<close> is the string it returns
  and \<open>getTemplatePath\<close> the file this string names. Without a category the entry
  of the id is consulted; the callers that pass none (\<^verbatim>\<open>readTemplate\<close>,
  \<^verbatim>\<open>updateTemplate\<close>) do so after \<^verbatim>\<open>templateExists\<close>, for an id that is an own
  property of the dictionary, and for other ids the model gives the default
  category without looking at inherited members.
\<close>

definition template_path :: "template_manager \<Rightarrow> string \<Rightarrow> string option \<Rightarrow> string" where
  "template_path tm tid cat =
     (if cat \<noteq> None \<and> cat \<noteq> Some [] then path_join [templatesDir tm, the cat, tid @ ''.json'']
      else (case map_of (templates (index tm)) tid of
              Some templateData \<Rightarrow>
                if category templateData \<noteq> []
                then path_join [templatesDir tm, category templateData, tid @ ''.json'']
                else path_join [templatesDir tm, ''project'', tid @ ''.json'']
            | None \<Rightarrow> path_join [templatesDir tm, ''project'', tid @ ''.json'']))"

definition getTemplatePath :: "template_manager \<Rightarrow> string \<Rightarrow> string option \<Rightarrow> string \<times> string" where
  "getTemplatePath tm tid cat = split_path (template_path tm tid cat)"

text \<open>
  \<^verbatim>\<open>templateExists\<close>, \<^verbatim>\<open>this.index.templates.hasOwnProperty(id)\<close>: an entry named
  \<^verbatim>\<open>hasOwnProperty\<close> hides the inherited method behind an object that is not a
  function, and the call throws. \<open>templateExists_on\<close> is the same expression when
  \<^verbatim>\<open>this.index\<close> is a parsed value without the shape of an index.
\<close>

definition templateExists :: "template_manager \<Rightarrow> string \<Rightarrow> error + bool" where
  "templateExists tm tid =
     (if map_of (templates (index tm)) ''hasOwnProperty'' \<noteq> None then Inl TypeError
      else Inr (map_of (templates (index tm)) tid \<noteq> None))"

definition templateExists_on :: "jsval \<Rightarrow> string \<Rightarrow> error + bool" where
  "templateExists_on v tid =
     (if nullish v then Inl TypeError else js_hasOwnProperty (js_get v ''templates'') tid)"

text \<open>
  \<^verbatim>\<open>this.index.templates[id]\<close> is truthy: the id is an entry, or a member of
  \<^verbatim>\<open>Object.prototype\<close>, or a truthy field of the entry that became the prototype.
  \<open>entry_object\<close> is an entry as the object it is.
\<close>

definition entry_object :: "index_entry \<Rightarrow> jsval" where
  "entry_object e =
     Obj [(''category'', Str (category e)), (''name'', name e), (''description'', description e),
          (''version'', version e), (''path'', Str (path e)), (''createdAt'', createdAt e),
          (''lastModified'', lastModified e), (''tags'', tags e)]"

definition truthy_entry_at :: "template_manager \<Rightarrow> string \<Rightarrow> bool" where
  "truthy_entry_at tm tid =
     (map_of (templates (index tm)) tid \<noteq> None
      \<or> tid \<in> set object_prototype_names
      \<or> (case templates_proto tm of None \<Rightarrow> False | Some e \<Rightarrow> truthy (js_get (entry_object e) tid)))"

text \<open>\<^verbatim>\<open>this.index.templates[id] = entry\<close>\<close>

definition assign_entry :: "template_manager \<Rightarrow> string \<Rightarrow> index_entry \<Rightarrow> template_manager" where
  "assign_entry tm tid entry =
     (case assign_object tid entry (templates (index tm), templates_proto tm) of
        (ts, proto) \<Rightarrow> tm\<lparr>index := (index tm)\<lparr>templates := ts\<rparr>, templates_proto := proto\<rparr>)"

definition validCategories :: "string list" where
  "validCategories = [''project'', ''workflow'', ''component'']"

text \<open>The template object that \<^verbatim>\<open>createTemplate\<close> builds.\<close>

definition new_template :: "string \<Rightarrow> string \<Rightarrow> jsval \<Rightarrow> string \<Rightarrow> string \<Rightarrow> jsval" where
  "new_template tid cat templateData t1 t2 =
     (let meta = js_get templateData ''meta'' in
      Obj [(''id'', Str tid),
           (''meta'', Obj [(''name'', js_get meta ''name''),
                          (''category'', Str cat),
                          (''version'', js_or (js_get meta ''version'') (Str ''1.0.0'')),
                          (''description'', js_or (js_get meta ''description'') (Str [])),
                          (''tags'', js_or (js_get meta ''tags'') (Arr [])),
                          (''author'', js_or (js_get meta ''author'') (Str [])),
                          (''createdAt'', Str t1),
                          (''lastModified'', Str t2)]),
           (''files'', js_or (js_get templateData ''files'') (Arr [])),
           (''claudeMd'', js_or (js_get templateData ''claudeMd'')
                            (Obj [(''sections'', Arr []), (''variables'', Obj []),
                                  (''instructions'', Arr [])])),
           (''variables'', js_or (js_get templateData ''variables'') (Obj [])),
           (''dependencies'', js_or (js_get templateData ''dependencies'') (Arr [])),
           (''postCreate'', js_or (js_get templateData ''postCreate'') (Arr []))])"

text \<open>
  \<^verbatim>\<open>createTemplate\<close>. The checks come before the \<^verbatim>\<open>try\<close>, so their errors, and the
  TypeError of \<^verbatim>\<open>templateExists\<close> and of a nullish \<^verbatim>\<open>templateData\<close>, reach the caller
  as they are.
\<close>

definition createTemplate ::
  "template_manager \<Rightarrow> world \<Rightarrow> string \<Rightarrow> string \<Rightarrow> jsval \<Rightarrow> (error + jsval) \<times> template_manager \<times> world" where
  "createTemplate tm w tid cat templateData =
     (case templateExists tm tid of
        Inl e \<Rightarrow> (Inl e, tm, w)
      | Inr True \<Rightarrow> (Inl (TemplateAlreadyExists tid), tm, w)
      | Inr False \<Rightarrow>
          if cat \<notin> set validCategories then (Inl (InvalidCategory cat), tm, w)
          else if nullish templateData then (Inl TypeError, tm, w)
          else if \<not> truthy (js_get templateData ''meta'')
                  \<or> \<not> truthy (js_get (js_get templateData ''meta'') ''name'')
            then (Inl MissingMetaName, tm, w)
          else
            (let (t1, w1) = new_Date w;
                 (t2, w2) = new_Date w1;
                 template = new_template tid cat templateData t1 t2;
                 meta = js_get template ''meta'';
                 templatePath = template_path tm tid (Some cat)
             in case writeFileSync w2 templatePath (split_path templatePath) (Json template) of
                  (Some e, w3) \<Rightarrow> (Inl FailedToCreate, tm, w3)
                | (None, w3) \<Rightarrow>
                    (let entry = \<lparr>category = cat,
                                  name = js_get meta ''name'',
                                  description = js_get meta ''description'',
                                  version = js_get meta ''version'',
                                  path = templatePath,
                                  createdAt = js_get meta ''createdAt'',
                                  lastModified = js_get meta ''lastModified'',
                                  tags = js_get meta ''tags''\<rparr>;
                         tm1 = assign_entry tm tid entry;
                         (ok, tm2, w4) = saveIndex tm1 w3
                     in (Inr template, tm2, w4))))"

definition readTemplate :: "template_manager \<Rightarrow> world \<Rightarrow> string \<Rightarrow> error + jsval" where
  "readTemplate tm w tid =
     (case templateExists tm tid of
        Inl e \<Rightarrow> Inl e
      | Inr False \<Rightarrow> Inl (TemplateNotFound tid)
      | Inr True \<Rightarrow>
          (case readFileSync w (getTemplatePath tm tid None) of
             Inl e \<Rightarrow> Inl FailedToRead
           | Inr t \<Rightarrow> (case JSON_parse t of Inl e \<Rightarrow> Inl FailedToRead | Inr templateData \<Rightarrow> Inr templateData)))"

text \<open>
  The merged object that \<^verbatim>\<open>updateTemplate\<close> builds,
  \<^verbatim>\<open>{...existing, ...updates, meta: {...existing.meta, ...updates.meta, lastModified}}\<close>;
  \<open>t\<close> is the clock reading. Reading \<^verbatim>\<open>meta\<close> of a nullish \<^verbatim>\<open>existing\<close> or \<^verbatim>\<open>updates\<close>
  throws inside the \<^verbatim>\<open>try\<close>, before the clock is read. The index entry of an existing
  id is present, so the lookup of the old entry always finds it.
\<close>

definition merge_template :: "jsval \<Rightarrow> jsval \<Rightarrow> string \<Rightarrow> jsval" where
  "merge_template existing updates t =
     Obj (define_prop ''meta''
            (Obj (define_prop ''lastModified'' (Str t)
                    (spread (js_get updates ''meta'') (spread (js_get existing ''meta'') []))))
            (spread updates (spread existing [])))"

definition updateTemplate ::
  "template_manager \<Rightarrow> world \<Rightarrow> string \<Rightarrow> jsval \<Rightarrow> (error + jsval) \<times> template_manager \<times> world" where
  "updateTemplate tm w tid updates =
     (case templateExists tm tid of
        Inl e \<Rightarrow> (Inl e, tm, w)
      | Inr False \<Rightarrow> (Inl (TemplateNotFound tid), tm, w)
      | Inr True \<Rightarrow>
          (case readTemplate tm w tid of
             Inl e \<Rightarrow> (Inl FailedToUpdate, tm, w)
           | Inr existing \<Rightarrow>
               if nullish existing \<or> nullish updates then (Inl FailedToUpdate, tm, w)
               else
                 (let (t, w1) = new_Date w;
                      updated = merge_template existing updates t;
                      meta = js_get updated ''meta'';
                      templatePath = template_path tm tid None
                  in case writeFileSync w1 templatePath (getTemplatePath tm tid None) (Json updated) of
                       (Some e, w2) \<Rightarrow> (Inl FailedToUpdate, tm, w2)
                     | (None, w2) \<Rightarrow>
                         (case map_of (templates (index tm)) tid of
                            None \<Rightarrow> (Inl FailedToUpdate, tm, w2)
                          | Some old \<Rightarrow>
                              (let entry = old\<lparr>name := js_get meta ''name'',
                                               description := js_get meta ''description'',
                                               version := js_get meta ''version'',
                                               lastModified := js_get meta ''lastModified'',
                                               tags := js_or (js_get meta ''tags'') (Arr [])\<rparr>;
                                   tm1 = assign_entry tm tid entry;
                                   (ok, tm2, w3) = saveIndex tm1 w2
                               in (Inr updated, tm2, w3))))))"

text \<open>
  \<^verbatim>\<open>syncTemplateIndex\<close>. First the discovery of the templates on disk: for each
  category whose directory exists, every listed name that ends in \<^verbatim>\<open>.json\<close>, with the
  first \<^verbatim>\<open>.json\<close> in it removed, is recorded with that category in the dictionary
  \<^verbatim>\<open>filesystemTemplates\<close> (a later category overwrites an earlier one).
\<close>

definition categories :: "string list" where
  "categories = [''project'', ''workflow'', ''component'']"

text \<open>\<^verbatim>\<open>s.replace(pat, rep)\<close> with a string pattern: the first occurrence only.\<close>

fun replace_first :: "string \<Rightarrow> string \<Rightarrow> string \<Rightarrow> string" where
  "replace_first pat rep [] = (if pat = [] then rep else [])"
| "replace_first pat rep (c # cs) =
     (if prefix pat (c # cs) then rep @ drop (length pat) (c # cs)
      else c # replace_first pat rep cs)"

definition listed_ids :: "world \<Rightarrow> string \<Rightarrow> string list" where
  "listed_ids w categoryPath =
     map (replace_first ''.json'' []) (filter (\<lambda>file. suffix ''.json'' file) (readdirSync w categoryPath))"

definition discover_category ::
  "template_manager \<Rightarrow> world \<Rightarrow> string \<Rightarrow> (string \<times> string) list \<Rightarrow> (string \<times> string) list" where
  "discover_category tm w cat acc =
     (let categoryPath = path_join [templatesDir tm, cat] in
      if existsSync_dir w categoryPath then
        (let files = listed_ids w categoryPath
         in fold (\<lambda>tid a. assign_string tid cat a) files acc)
      else acc)"

definition filesystemTemplates :: "template_manager \<Rightarrow> world \<Rightarrow> (string \<times> string) list" where
  "filesystemTemplates tm w = fold (discover_category tm w) categories []"

text \<open>
  The first loop runs over a snapshot of the entries of the index and deletes those
  for which \<^verbatim>\<open>filesystemTemplates[templateId]\<close> is falsy.
\<close>

definition remove_step ::
  "(string \<times> string) list \<Rightarrow> string \<times> index_entry \<Rightarrow>
   (string \<times> index_entry) list \<times> nat \<Rightarrow> (string \<times> index_entry) list \<times> nat" where
  "remove_step fsT kv acc =
     (if \<not> truthy_string_at fsT (fst kv) then (AList.delete (fst kv) (fst acc), Suc (snd acc))
      else acc)"

definition remove_missing ::
  "(string \<times> string) list \<Rightarrow> (string \<times> index_entry) list \<Rightarrow> (string \<times> index_entry) list \<times> nat" where
  "remove_missing fsT ts = fold (remove_step fsT) ts (ts, 0)"

text \<open>
  The entry built for a discovered template; a clock reading is taken only where
  the file gives no \<^verbatim>\<open>createdAt\<close> or \<^verbatim>\<open>lastModified\<close>.
\<close>

definition or_now :: "jsval \<Rightarrow> world \<Rightarrow> jsval \<times> world" where
  "or_now v w = (if truthy v then (v, w) else (let (t, w1) = new_Date w in (Str t, w1)))"

definition discovered_entry ::
  "template_manager \<Rightarrow> string \<Rightarrow> string \<Rightarrow> jsval \<Rightarrow> world \<Rightarrow> index_entry \<times> world" where
  "discovered_entry tm templateId cat templateData w =
     (let meta = js_get templateData ''meta'';
          (c, w1) = or_now (js_get_opt meta ''createdAt'') w;
          (m, w2) = or_now (js_get_opt meta ''lastModified'') w1
      in (\<lparr>category = cat,
           name = js_or (js_get_opt meta ''name'') (Str templateId),
           description = js_or (js_get_opt meta ''description'') (Str []),
           version = js_or (js_get_opt meta ''version'') (Str ''1.0.0''),
           path = template_path tm templateId (Some cat),
           createdAt = c,
           lastModified = m,
           tags = js_or (js_get_opt meta ''tags'') (Arr [])\<rparr>, w2))"

text \<open>
  What the \<^verbatim>\<open>try\<close> block of the second loop reads: the parsed file at the template
  path, or the error that the \<^verbatim>\<open>catch\<close> swallows (the read or the parse threw, or the
  parsed value is \<^verbatim>\<open>null\<close> and reading its \<^verbatim>\<open>meta\<close> threw).
\<close>

definition read_discovered :: "template_manager \<Rightarrow> world \<Rightarrow> string \<Rightarrow> string \<Rightarrow> error + jsval" where
  "read_discovered tm w templateId cat =
     (case readFileSync w (getTemplatePath tm templateId (Some cat)) of
        Inl e \<Rightarrow> Inl e
      | Inr t \<Rightarrow>
          (case JSON_parse t of
             Inl e \<Rightarrow> Inl e
           | Inr templateData \<Rightarrow> if nullish templateData then Inl TypeError else Inr templateData))"

text \<open>
  The second loop runs over the discovered templates and indexes those for which
  \<^verbatim>\<open>this.index.templates[templateId]\<close> is falsy and whose file can be read.
\<close>

definition add_step ::
  "string \<times> string \<Rightarrow> template_manager \<times> world \<times> nat \<Rightarrow> template_manager \<times> world \<times> nat" where
  "add_step kc acc =
     (case acc of (tm, w, addedCount) \<Rightarrow>
        if truthy_entry_at tm (fst kc) then acc
        else (case read_discovered tm w (fst kc) (snd kc) of
                Inl e \<Rightarrow> acc
              | Inr templateData \<Rightarrow>
                  (let (entry, w1) = discovered_entry tm (fst kc) (snd kc) templateData w
                   in (assign_entry tm (fst kc) entry, w1, Suc addedCount))))"

record sync_result =
  addedCount :: nat
  syncedCount :: nat
  removedCount :: nat

definition syncTemplateIndex :: "template_manager \<Rightarrow> world \<Rightarrow> sync_result \<times> template_manager \<times> world" where
  "syncTemplateIndex tm w =
     (let fsT = filesystemTemplates tm w;
          (ts1, removed) = remove_missing fsT (templates (index tm));
          tm1 = tm\<lparr>index := (index tm)\<lparr>templates := ts1\<rparr>\<rparr>;
          (tm2, w2, added) = fold add_step fsT (tm1, w, 0);
          (ok, tm3, w3) = saveIndex tm2 w2
      in (\<lparr>addedCount = added, syncedCount = 0, removedCount = removed\<rparr>, tm3, w3))"


section \<open>AlignmentScorer\<close>

record history_entry =
  projectName :: string
  totalScore :: jsval
  timestamp :: string
  missionId :: jsval

text \<open>
  \<^verbatim>\<open>this.scoresData\<close>, the parsed scores file, taken to be an object.
  \<open>projectScores\<close> is \<open>None\<close> when the file gives no object under that name, so
  that storing a score there throws; \<open>scoringHistory\<close> is \<open>None\<close> when the
  property is falsy (\<^verbatim>\<open>!this.scoresData.scoringHistory\<close>) and a list of entries
  otherwise; \<open>settings\<close> is the value of that property, \<^verbatim>\<open>undefined\<close> when absent.
\<close>

record scores_data =
  projectScores :: "(string \<times> jsval) list option"
  scoringHistory :: "history_entry list option"
  scores_lastUpdated :: string
  settings :: jsval

text \<open>
  The scorer: \<open>missionData\<close> is the parsed mission file, and \<open>projectScores_proto\<close>
  the prototype of the dictionary \<^verbatim>\<open>projectScores\<close> once a score was stored under
  the name \<^verbatim>\<open>__proto__\<close>.
\<close>

record alignment_scorer =
  scoresFile :: string
  scoresData :: scores_data
  missionData :: jsval
  projectScores_proto :: "jsval option"

datatype scores_text = ScoresJson scores_data | ScoresGarbage string

record scorer_world =
  scores_file :: "scores_text option"
  scores_write :: "string \<Rightarrow> write_outcome"
  scorer_clock :: "nat \<Rightarrow> string"
  scorer_ticks :: nat

definition scorer_Date :: "scorer_world \<Rightarrow> string \<times> scorer_world" where
  "scorer_Date w = (scorer_clock w (scorer_ticks w), w\<lparr>scorer_ticks := Suc (scorer_ticks w)\<rparr>)"

text \<open>The stored history, read as \<^verbatim>\<open>this.scoresData.scoringHistory || []\<close>.\<close>

definition history_of :: "alignment_scorer \<Rightarrow> history_entry list" where
  "history_of sc = (case scoringHistory (scoresData sc) of None \<Rightarrow> [] | Some h \<Rightarrow> h)"

text \<open>\<^verbatim>\<open>_saveScoresData\<close>: the write is not guarded, so its error propagates.\<close>

definition saveScoresData :: "alignment_scorer \<Rightarrow> scorer_world \<Rightarrow> error option \<times> alignment_scorer \<times> scorer_world" where
  "saveScoresData sc w =
     (let (t, w1) = scorer_Date w;
          sc1 = sc\<lparr>scoresData := (scoresData sc)\<lparr>scores_lastUpdated := t\<rparr>\<rparr>
      in case scores_write w1 (scoresFile sc1) of
           Completes \<Rightarrow> (None, sc1, w1\<lparr>scores_file := Some (ScoresJson (scoresData sc1))\<rparr>)
         | FailsUntouched \<Rightarrow> (Some SystemError, sc1, w1)
         | FailsPartial s \<Rightarrow> (Some SystemError, sc1, w1\<lparr>scores_file := Some (ScoresGarbage s)\<rparr>))"

text \<open>A destructuring default: taken when the property is \<^verbatim>\<open>undefined\<close>.\<close>

definition with_default :: "jsval \<Rightarrow> string \<Rightarrow> jsval \<Rightarrow> jsval" where
  "with_default obj k d = (if js_get obj k = Undefined then d else js_get obj k)"

text \<open>
  \<^verbatim>\<open>_calculateAlignmentScore\<close>. Its first three statements read the active mission
  (\<^verbatim>\<open>_getActiveMission\<close>), the user assessments and the weightings, and throw a
  TypeError when \<^verbatim>\<open>missionData\<close> is nullish, when a mission is active and
  \<^verbatim>\<open>missionData.missions\<close> is nullish, and when \<^verbatim>\<open>scoresData.settings\<close> is nullish.
  What follows, the component scores, the weighted total and the assembled score
  object, is floating-point arithmetic over the mission and competency data and is
  the parameter \<open>heur\<close>: from the scorer, the world and the project
  information it gives the score object or the error it throws (as
  \<^verbatim>\<open>projectInfo.tags.join\<close> does for tags that are not an array), and the number of
  clock readings it took (\<^verbatim>\<open>_calculateTimelineAlignment\<close> takes one). The competency
  framework, which \<^verbatim>\<open>scoreProject\<close> never changes, is part of that parameter.
\<close>

type_synonym heuristics = "alignment_scorer \<Rightarrow> scorer_world \<Rightarrow> jsval \<Rightarrow> (error + jsval) \<times> nat"

definition calculateAlignmentScore ::
  "heuristics \<Rightarrow> alignment_scorer \<Rightarrow> scorer_world \<Rightarrow> jsval \<Rightarrow> (error + jsval) \<times> nat" where
  "calculateAlignmentScore heur sc w projectInfo =
     (if nullish (missionData sc) then (Inl TypeError, 0)
      else if truthy (js_get (missionData sc) ''activeMission'')
              \<and> nullish (js_get (missionData sc) ''missions'') then (Inl TypeError, 0)
      else if nullish (settings (scoresData sc)) then (Inl TypeError, 0)
      else heur sc w projectInfo)"

text \<open>
  \<^verbatim>\<open>scoreProject(projectName, projectData = {})\<close>. \<open>project_data\<close> applies the
  parameter default, \<open>project_info\<close> is the object handed to
  \<^verbatim>\<open>_calculateAlignmentScore\<close>, \<open>stored_score\<close> the object stored under the project's
  name. Destructuring \<^verbatim>\<open>null\<close> throws a TypeError. The stored object is built, with
  its clock reading, before the store into \<^verbatim>\<open>projectScores\<close> throws for want of an
  object to store into.
\<close>

definition project_data :: "jsval \<Rightarrow> jsval" where
  "project_data projectData0 = (if projectData0 = Undefined then Obj [] else projectData0)"

definition project_info :: "string \<Rightarrow> jsval \<Rightarrow> jsval" where
  "project_info pname projectData =
     Obj [(''projectName'', Str pname),
          (''description'', with_default projectData ''description'' (Str [])),
          (''tags'', with_default projectData ''tags'' (Arr [])),
          (''projectType'', with_default projectData ''projectType'' (Str ''learning'')),
          (''estimatedHours'', with_default projectData ''estimatedHours'' (Num 0)),
          (''technologies'', with_default projectData ''technologies'' (Arr [])),
          (''learningGoals'', with_default projectData ''learningGoals'' (Arr []))]"

definition stored_score :: "jsval \<Rightarrow> string \<Rightarrow> jsval \<Rightarrow> jsval" where
  "stored_score score t projectData =
     Obj (define_prop ''projectData''
            (Obj [(''description'', with_default projectData ''description'' (Str [])),
                  (''tags'', with_default projectData ''tags'' (Arr [])),
                  (''projectType'', with_default projectData ''projectType'' (Str ''learning'')),
                  (''technologies'', with_default projectData ''technologies'' (Arr []))])
            (define_prop ''scoredAt'' (Str t) (spread score [])))"

definition scoreProject ::
  "heuristics \<Rightarrow> alignment_scorer \<Rightarrow> scorer_world \<Rightarrow> string \<Rightarrow> jsval
   \<Rightarrow> (error + jsval) \<times> alignment_scorer \<times> scorer_world" where
  "scoreProject heur sc w pname projectData0 =
     (let projectData = project_data projectData0 in
      if projectData = Null then (Inl TypeError, sc, w)
      else
        (case calculateAlignmentScore heur sc w (project_info pname projectData) of
           (Inl e, n) \<Rightarrow> (Inl e, sc, w\<lparr>scorer_ticks := scorer_ticks w + n\<rparr>)
         | (Inr score, n) \<Rightarrow>
             (let (t1, w1) = scorer_Date (w\<lparr>scorer_ticks := scorer_ticks w + n\<rparr>);
                  stored = stored_score score t1 projectData
              in case projectScores (scoresData sc) of
                   None \<Rightarrow> (Inl TypeError, sc, w1)
                 | Some dict \<Rightarrow>
                     (let (dict1, proto1) = assign_object pname stored (dict, projectScores_proto sc);
                          history0 = history_of sc;
                          (t2, w2) = scorer_Date w1;
                          history1 = \<lparr>projectName = pname, totalScore = js_get score ''totalScore'',
                                      timestamp = t2,
                                      missionId = js_get (missionData sc) ''activeMission''\<rparr> # history0;
                          sc1 = sc\<lparr>scoresData := (scoresData sc)
                                     \<lparr>projectScores := Some dict1,
                                      scoringHistory := Some (take 50 history1)\<rparr>,
                                   projectScores_proto := proto1\<rparr>
                      in case saveScoresData sc1 w2 of
                           (Some e, sc2, w3) \<Rightarrow> (Inl e, sc2, w3)
                         | (None, sc2, w3) \<Rightarrow> (Inr score, sc2, w3)))))"

text \<open>A sequence of calls on the same scorer, each with its project name and data.\<close>

fun scoreProjects ::
  "heuristics \<Rightarrow> alignment_scorer \<Rightarrow> scorer_world
   \<Rightarrow> (string \<times> jsval) list \<Rightarrow> alignment_scorer \<times> scorer_world" where
  "scoreProjects heur sc w [] = (sc, w)"
| "scoreProjects heur sc w (c # cs) =
     (case scoreProject heur sc w (fst c) (snd c) of (r, sc1, w1) \<Rightarrow> scoreProjects heur sc1 w1 cs)"

text \<open>
  The calls of such a sequence that get as far as the history: those whose
  project data is not \<^verbatim>\<open>null\<close>, whose score computation returns and which find an
  object to store the score in. \<open>scored_calls\<close> lists them in the order of the
  calls, each with the number of the clock reading that stamps its history entry.
\<close>

definition stores_score :: "heuristics \<Rightarrow> alignment_scorer \<Rightarrow> scorer_world \<Rightarrow> string \<Rightarrow> jsval \<Rightarrow> bool" where
  "stores_score heur sc w pname projectData0 =
     (project_data projectData0 \<noteq> Null
      \<and> (case fst (calculateAlignmentScore heur sc w (project_info pname (project_data projectData0))) of
           Inl e \<Rightarrow> False | Inr score \<Rightarrow> True)
      \<and> projectScores (scoresData sc) \<noteq> None)"

definition stamp_tick :: "heuristics \<Rightarrow> alignment_scorer \<Rightarrow> scorer_world \<Rightarrow> string \<Rightarrow> jsval \<Rightarrow> nat" where
  "stamp_tick heur sc w pname projectData0 =
     scorer_ticks w
       + snd (calculateAlignmentScore heur sc w (project_info pname (project_data projectData0))) + 1"

fun scored_calls ::
  "heuristics \<Rightarrow> alignment_scorer \<Rightarrow> scorer_world \<Rightarrow> (string \<times> jsval) list \<Rightarrow> (string \<times> nat) list" where
  "scored_calls heur sc w [] = []"
| "scored_calls heur sc w (c # cs) =
     (if stores_score heur sc w (fst c) (snd c) then [(fst c, stamp_tick heur sc w (fst c) (snd c))] else [])
     @ (case scoreProject heur sc w (fst c) (snd c) of (r, sc1, w1) \<Rightarrow> scored_calls heur sc1 w1 cs)"


section \<open>Lifecycle state machine\<close>

text \<open>
  Modelled from the spec: the stages of a project (section 4.2). The command-line
  tool that implements the lifecycle (the \<^verbatim>\<open>cli\<close> executable with its project index,
  its move primitive and its command dispatcher) is not among the source files;
  this section follows the specification's words.
\<close>

datatype stage = NEXT | NOW | MAYBE | DONE | VAULT | FUNERAL | GRAVEYARD

text \<open>
  Modelled from the spec: the transition operations of the command surface,
  \<^verbatim>\<open>start|ship|pause|fail|bury|archive <name>\<close>; their code is missing.
\<close>

datatype operation = Start | Ship | Pause | Fail | Bury | Archive

text \<open>Modelled from the spec: the error taxonomy of section 7; the code raising them is missing.\<close>

datatype lifecycle_error = NameCollision | UnknownProject | InvalidTransition | FilesystemFailure

text \<open>
  Modelled from the spec: a project record of the index (section 3), whose
  declaration is missing: stage, path, timestamps and the optional note.
\<close>

record project =
  stage :: stage
  project_path :: string
  project_createdAt :: string
  project_lastModified :: string
  project_note :: "string option"

text \<open>
  Modelled from the spec: the two sources of truth, whose code is missing. \<open>projects\<close>
  is the index, \<open>containers s\<close> the names of the directories physically under the
  container of stage \<open>s\<close>, \<open>container_path s\<close> that container's path, and
  \<open>relocation_fault\<close> tells for which directory the filesystem refuses a move
  (permissions, disk full).
\<close>

record portfolio =
  projects :: "(string \<times> project) list"
  containers :: "stage \<Rightarrow> string list"
  container_path :: "stage \<Rightarrow> string"
  relocation_fault :: "string \<Rightarrow> bool"

text \<open>Modelled from the spec: the glossary's terminal stages, VAULT or GRAVEYARD (code missing).\<close>

definition terminal :: "stage \<Rightarrow> bool" where
  "terminal s = (s = VAULT \<or> s = GRAVEYARD)"

definition all_stages :: "stage list" where
  "all_stages = [NEXT, NOW, MAYBE, DONE, VAULT, FUNERAL, GRAVEYARD]"

text \<open>
  Modelled from the spec: the missing transition table, column "Allowed from":
  start from NEXT, MAYBE, DONE, GRAVEYARD; ship and pause from NOW; fail from any
  non-terminal stage; bury and archive from any stage.
\<close>

fun allowed_from :: "operation \<Rightarrow> stage list" where
  "allowed_from Start = [NEXT, MAYBE, DONE, GRAVEYARD]"
| "allowed_from Ship = [NOW]"
| "allowed_from Pause = [NOW]"
| "allowed_from Fail = filter (\<lambda>s. \<not> terminal s) all_stages"
| "allowed_from Bury = all_stages"
| "allowed_from Archive = all_stages"

text \<open>Modelled from the spec: the missing transition table, column "To".\<close>

fun destination :: "operation \<Rightarrow> stage" where
  "destination Start = NOW"
| "destination Ship = DONE"
| "destination Pause = MAYBE"
| "destination Fail = FUNERAL"
| "destination Bury = GRAVEYARD"
| "destination Archive = VAULT"

text \<open>
  Modelled from the spec: the physical relocation of a directory between stage
  containers, whose code is missing. It fails on a filesystem fault, when the
  directory is not under the source container, and when the target already exists.
\<close>

definition relocate :: "portfolio \<Rightarrow> string \<Rightarrow> stage \<Rightarrow> stage \<Rightarrow> (stage \<Rightarrow> string list) option" where
  "relocate pf nm src dst =
     (if relocation_fault pf nm \<or> nm \<notin> set (containers pf src) \<or> nm \<in> set (containers pf dst)
      then None
      else Some ((containers pf)(src := removeAll nm (containers pf src),
                                  dst := containers pf dst @ [nm])))"

text \<open>
  Modelled from the spec: the single logical move primitive behind every
  transition, whose code is missing: validate that the project's recorded stage is
  an allowed source, physically relocate the directory, then update the index
  entry's stage, path and lastModified together. Validation errors leave the state
  as it is; so does a failed relocation. \<open>now\<close> is the time of the transition.
\<close>

definition transition ::
  "operation \<Rightarrow> string \<Rightarrow> string \<Rightarrow> portfolio \<Rightarrow> (lifecycle_error + unit) \<times> portfolio" where
  "transition opn nm now pf =
     (case map_of (projects pf) nm of
        None \<Rightarrow> (Inl UnknownProject, pf)
      | Some p \<Rightarrow>
          if stage p \<notin> set (allowed_from opn) then (Inl InvalidTransition, pf)
          else (case relocate pf nm (stage p) (destination opn) of
                  None \<Rightarrow> (Inl FilesystemFailure, pf)
                | Some layout \<Rightarrow>
                    (Inr (),
                     pf\<lparr>containers := layout,
                        projects := AList.update nm
                          (p\<lparr>stage := destination opn,
                             project_path := path_join [container_path pf (destination opn), nm],
                             project_lastModified := now\<rparr>)
                          (projects pf)\<rparr>)))"




section \<open>Example states\<close>

text \<open>Concrete inputs at which the properties below are evaluated.\<close>

definition example_heuristics :: heuristics where
  "example_heuristics s w i =
     (Inr (Obj [(''totalScore'', Num 72)]),
      if truthy (js_get (missionData s) ''activeMission'') then 1 else 0)"

definition example_scorer :: alignment_scorer where
  "example_scorer =
     \<lparr>scoresFile = ''.system/alignment-scores.json'',
      scoresData = \<lparr>projectScores = Some [], scoringHistory = None, scores_lastUpdated = ''t'',
                    settings = Obj []\<rparr>,
      missionData = Obj [(''activeMission'', Null), (''missions'', Obj [])],
      projectScores_proto = None\<rparr>"

definition example_scorer_world :: scorer_world where
  "example_scorer_world =
     \<lparr>scores_file = None, scores_write = (\<lambda>p. Completes),
      scorer_clock = (\<lambda>n. if n = 1 then ''t1'' else if n = 4 then ''t4'' else ''t''),
      scorer_ticks = 0\<rparr>"

text \<open>Three calls; the second passes \<^verbatim>\<open>null\<close> as project data.\<close>

definition example_calls :: "(string \<times> jsval) list" where
  "example_calls = [(''demo'', Undefined), (''broken'', Null), (''second'', Obj [])]"

text \<open>
  A scorer whose scores file has no \<^verbatim>\<open>settings\<close> and a history of 51 entries,
  as a file written by hand or by another tool can have.
\<close>

definition example_unconfigured_scorer :: alignment_scorer where
  "example_unconfigured_scorer =
     example_scorer\<lparr>scoresData :=
       \<lparr>projectScores = Some [],
        scoringHistory = Some (replicate 51 \<lparr>projectName = ''old'', totalScore = Num 50,
                                              timestamp = ''t'', missionId = Null\<rparr>),
        scores_lastUpdated = ''t'', settings = Undefined\<rparr>\<rparr>"


definition example_entry :: "string \<Rightarrow> string \<Rightarrow> index_entry" where
  "example_entry cat tid =
     \<lparr>category = cat, name = Str tid, description = Str [], version = Str ''1.0.0'',
      path = path_join [''docs/templates'', cat, tid @ ''.json''],
      createdAt = Str ''t0'', lastModified = Str ''t0'', tags = Arr []\<rparr>"

definition example_manager :: template_manager where
  "example_manager =
     \<lparr>templatesDir = ''docs/templates'',
      indexPath = ''docs/templates/template-index.json'',
      index = \<lparr>templates = [(''moved'', example_entry ''project'' ''moved''),
                             (''gone'', example_entry ''component'' ''gone'')],
               lastUpdated = ''t0'', index_version = ''1.0.0''\<rparr>,
      templates_proto = None\<rparr>"

text \<open>
  A layout that has drifted from the index of \<open>example_manager\<close>: \<^verbatim>\<open>moved.json\<close> now
  lies under \<^verbatim>\<open>workflow\<close>, the file of \<^verbatim>\<open>gone\<close> was deleted, and \<^verbatim>\<open>project\<close> holds
  two files the index does not know, one of them not valid JSON.
\<close>

definition example_world :: world where
  "example_world =
     \<lparr>category_dirs = (\<lambda>d.
        if d = ''docs/templates/project'' then
          Some [(''broken.json'', File (Garbage ''{'')),
                (''fresh.json'', File (Json (Obj [(''meta'', Obj [(''name'', Str ''Fresh'')])])))]
        else if d = ''docs/templates/workflow'' then Some [(''moved.json'', File (Json (Obj [])))]
        else if d = ''docs/templates/component'' then Some []
        else None),
      index_file = None,
      write_outcome = (\<lambda>p. Completes),
      clock = (\<lambda>n. ''now''),
      ticks = 0,
      fs_log = []\<rparr>"


text \<open>The same layout with the index on disk and a disk that fills up during a write.\<close>

definition example_failing_world :: world where
  "example_failing_world =
     example_world\<lparr>index_file := Some (IndexJson (index example_manager)),
                    write_outcome := (\<lambda>p. FailsPartial ''{'')\<rparr>"

definition example_template_data :: jsval where
  "example_template_data = Obj [(''meta'', Obj [(''name'', Str ''Demo'')])]"


text \<open>The state after creating the template \<^verbatim>\<open>demo\<close>, some time later, and an update for it.\<close>

definition example_created_manager :: template_manager where
  "example_created_manager =
     fst (snd (createTemplate example_manager example_world ''demo'' ''project'' example_template_data))"

definition example_created_world :: world where
  "example_created_world =
     (snd (snd (createTemplate example_manager example_world ''demo'' ''project'' example_template_data)))
       \<lparr>clock := (\<lambda>n. ''later'')\<rparr>"

definition example_updates :: jsval where
  "example_updates =
     Obj [(''meta'', Obj [(''description'', Str ''A demo'')]), (''variables'', Obj [(''x'', Num 1)])]"


text \<open>
  Names that \<^verbatim>\<open>Object.prototype\<close> also bears. The manager after creating a template
  named \<^verbatim>\<open>hasOwnProperty\<close>; a manager whose index has an entry \<^verbatim>\<open>toString\<close>; and a
  layout without a file for it, in which \<^verbatim>\<open>project\<close> holds a readable
  \<^verbatim>\<open>constructor.json\<close>. Then the manager as it starts when there is no index
  file, and a world whose index file holds \<^verbatim>\<open>{}\<close>.
\<close>

definition example_shadowed_manager :: template_manager where
  "example_shadowed_manager =
     fst (snd (createTemplate example_manager example_world ''hasOwnProperty'' ''project''
                 example_template_data))"

definition example_named_manager :: template_manager where
  "example_named_manager =
     example_manager\<lparr>index := \<lparr>templates = [(''toString'', example_entry ''project'' ''toString'')],
                               lastUpdated = ''t0'', index_version = ''1.0.0''\<rparr>\<rparr>"

definition example_named_world :: world where
  "example_named_world =
     example_world\<lparr>category_dirs := (\<lambda>d.
        if d = ''docs/templates/project'' then
          Some [(''constructor.json'', File (Json (Obj [(''meta'', Obj [(''name'', Str ''C'')])])))]
        else if d = ''docs/templates/workflow'' then Some []
        else if d = ''docs/templates/component'' then Some []
        else None)\<rparr>"

definition example_empty_manager :: template_manager where
  "example_empty_manager =
     example_manager\<lparr>index := \<lparr>templates = [], lastUpdated = ''now'', index_version = ''1.0.0''\<rparr>\<rparr>"

definition example_unshaped_world :: world where
  "example_unshaped_world = example_world\<lparr>index_file := Some (IndexOther (Obj []))\<rparr>"


text \<open>A portfolio with an active project \<^verbatim>\<open>x\<close> and a parked project \<^verbatim>\<open>y\<close>.\<close>

definition example_portfolio :: portfolio where
  "example_portfolio =
     \<lparr>projects =
        [(''x'', \<lparr>stage = NOW, project_path = ''.now/x'', project_createdAt = ''t0'',
                  project_lastModified = ''t0'', project_note = None\<rparr>),
         (''y'', \<lparr>stage = MAYBE, project_path = ''.maybe/y'', project_createdAt = ''t0'',
                  project_lastModified = ''t0'', project_note = Some ''parked''\<rparr>)],
      containers = (\<lambda>s. if s = NOW then [''x''] else if s = MAYBE then [''y''] else []),
      container_path = (\<lambda>s. case s of NEXT \<Rightarrow> ''.next'' | NOW \<Rightarrow> ''.now'' | MAYBE \<Rightarrow> ''.maybe''
                             | DONE \<Rightarrow> ''.done'' | VAULT \<Rightarrow> ''.vault''
                             | FUNERAL \<Rightarrow> ''.lab/funeral'' | GRAVEYARD \<Rightarrow> ''.graveyard''),
      relocation_fault = (\<lambda>n. False)\<rparr>"

definition example_faulty_portfolio :: portfolio where
  "example_faulty_portfolio = example_portfolio\<lparr>relocation_fault := (\<lambda>n. True)\<rparr>"


section \<open>Verified properties\<close>

subsection \<open>Scoring history\<close>

lemma saveScoresData_history:
  "saveScoresData sc w = (r, sc', w') \<Longrightarrow>
     scoringHistory (scoresData sc') = scoringHistory (scoresData sc)
     \<and> scorer_ticks w' = Suc (scorer_ticks w) \<and> scorer_clock w' = scorer_clock w"
  by (auto simp: saveScoresData_def scorer_Date_def Let_def split: write_outcome.splits)

lemma scoreProject_stored:
  assumes "stores_score heur sc w pname pd"
    and "scoreProject heur sc w pname pd = (r, sc', w')"
  shows "\<exists>score n. calculateAlignmentScore heur sc w (project_info pname (project_data pd)) = (Inr score, n)
         \<and> scoringHistory (scoresData sc') =
             Some (take 50 (\<lparr>projectName = pname, totalScore = js_get score ''totalScore'',
                             timestamp = scorer_clock w (scorer_ticks w + n + 1),
                             missionId = js_get (missionData sc) ''activeMission''\<rparr> # history_of sc))
         \<and> scorer_ticks w' = scorer_ticks w + n + 3 \<and> scorer_clock w' = scorer_clock w"
proof -
  let ?info = "project_info pname (project_data pd)"
  obtain res n where c: "calculateAlignmentScore heur sc w ?info = (res, n)"
    by (cases "calculateAlignmentScore heur sc w ?info") auto
  from assms(1) c obtain score where s: "res = Inr score"
    by (cases res) (auto simp: stores_score_def)
  from assms(1) obtain dict where d: "projectScores (scoresData sc) = Some dict"
    by (auto simp: stores_score_def)
  from assms(1) have nn: "project_data pd \<noteq> Null" by (simp add: stores_score_def)
  from assms(2) nn c s d
  have "scoringHistory (scoresData sc') =
             Some (take 50 (\<lparr>projectName = pname, totalScore = js_get score ''totalScore'',
                             timestamp = scorer_clock w (scorer_ticks w + n + 1),
                             missionId = js_get (missionData sc) ''activeMission''\<rparr> # history_of sc))
         \<and> scorer_ticks w' = scorer_ticks w + n + 3 \<and> scorer_clock w' = scorer_clock w"
    by (auto simp: scoreProject_def Let_def scorer_Date_def
             split: prod.splits option.splits dest!: saveScoresData_history)
  with c s show ?thesis by blast
qed

lemma scoreProject_not_stored:
  assumes "\<not> stores_score heur sc w pname pd"
    and "scoreProject heur sc w pname pd = (r, sc', w')"
  shows "sc' = sc \<and> scorer_ticks w \<le> scorer_ticks w' \<and> scorer_clock w' = scorer_clock w"
proof -
  let ?info = "project_info pname (project_data pd)"
  obtain res n where c: "calculateAlignmentScore heur sc w ?info = (res, n)"
    by (cases "calculateAlignmentScore heur sc w ?info") auto
  from assms c show ?thesis
    by (cases res; cases "projectScores (scoresData sc)")
       (auto simp: scoreProject_def stores_score_def Let_def scorer_Date_def split_beta split: if_splits)
qed

lemma take_append_take: "take n (xs @ take n ys) = take n (xs @ ys)"
  by (simp add: min_def)

text \<open>The history after a sequence of calls, by induction on the sequence.\<close>

lemma scoreProjects_history:
  "scoreProjects heur sc w cs = (sc', w') \<Longrightarrow>
     scorer_clock w' = scorer_clock w \<and> scorer_ticks w \<le> scorer_ticks w'
     \<and> (\<forall>j \<in> snd ` set (scored_calls heur sc w cs). scorer_ticks w < j)
     \<and> sorted_wrt (<) (map snd (scored_calls heur sc w cs))
     \<and> (scored_calls heur sc w cs = [] \<longrightarrow> scoresData sc' = scoresData sc)
     \<and> (scored_calls heur sc w cs \<noteq> [] \<longrightarrow>
          map (\<lambda>e. (projectName e, timestamp e)) (history_of sc') =
            take 50 (rev (map (\<lambda>nj. (fst nj, scorer_clock w (snd nj))) (scored_calls heur sc w cs))
                     @ map (\<lambda>e. (projectName e, timestamp e)) (history_of sc)))"
proof (induction cs arbitrary: sc w)
  case Nil
  then show ?case by simp
next
  case (Cons c cs)
  obtain r sc1 w1 where step: "scoreProject heur sc w (fst c) (snd c) = (r, sc1, w1)"
    by (cases "scoreProject heur sc w (fst c) (snd c)") auto
  from Cons.prems step have rest: "scoreProjects heur sc1 w1 cs = (sc', w')" by simp
  note ih = Cons.IH [OF rest]
  let ?S' = "scored_calls heur sc1 w1 cs"
  let ?pr = "\<lambda>e. (projectName e, timestamp e)"
  show ?case
  proof (cases "stores_score heur sc w (fst c) (snd c)")
    case False
    from scoreProject_not_stored [OF False step]
    have same: "sc1 = sc" "scorer_ticks w \<le> scorer_ticks w1" "scorer_clock w1 = scorer_clock w"
      by simp_all
    have S: "scored_calls heur sc w (c # cs) = ?S'"
      using False step by simp
    from ih same show ?thesis unfolding S by auto
  next
    case True
    from scoreProject_stored [OF True step] obtain score n where
      c: "calculateAlignmentScore heur sc w (project_info (fst c) (project_data (snd c))) = (Inr score, n)"
      and h: "scoringHistory (scoresData sc1) =
             Some (take 50 (\<lparr>projectName = fst c, totalScore = js_get score ''totalScore'',
                             timestamp = scorer_clock w (scorer_ticks w + n + 1),
                             missionId = js_get (missionData sc) ''activeMission''\<rparr> # history_of sc))"
      and t: "scorer_ticks w1 = scorer_ticks w + n + 3" "scorer_clock w1 = scorer_clock w"
      by blast
    have j: "stamp_tick heur sc w (fst c) (snd c) = scorer_ticks w + n + 1"
      by (simp add: stamp_tick_def c)
    have S: "scored_calls heur sc w (c # cs) = (fst c, scorer_ticks w + n + 1) # ?S'"
      using True step j by simp
    have h1: "map ?pr (history_of sc1) =
                take 50 ((fst c, scorer_clock w (scorer_ticks w + n + 1)) # map ?pr (history_of sc))"
      using h by (simp add: history_of_def take_map)
    have later: "\<forall>j \<in> snd ` set ?S'. scorer_ticks w + n + 1 < j"
      using ih t by auto
    have sorted: "sorted_wrt (<) (map snd (scored_calls heur sc w (c # cs)))"
      unfolding S using ih later by auto
    have lower: "\<forall>j \<in> snd ` set (scored_calls heur sc w (c # cs)). scorer_ticks w < j"
      unfolding S using later by auto
    have hist: "map ?pr (history_of sc') =
            take 50 (rev (map (\<lambda>nj. (fst nj, scorer_clock w (snd nj))) (scored_calls heur sc w (c # cs)))
                     @ map ?pr (history_of sc))"
    proof (cases "?S' = []")
      case True
      with ih have "scoresData sc' = scoresData sc1" by simp
      then have "history_of sc' = history_of sc1" by (simp add: history_of_def)
      with h1 True show ?thesis unfolding S by simp
    next
      case False
      with ih have "map ?pr (history_of sc') =
            take 50 (rev (map (\<lambda>nj. (fst nj, scorer_clock w1 (snd nj))) ?S') @ map ?pr (history_of sc1))"
        by simp
      then show ?thesis unfolding S h1 t take_append_take by simp
    qed
    from ih t sorted lower hist show ?thesis unfolding S by auto
  qed
qed

text \<open>
  C10. A call of \<open>scoreProject\<close> that gets as far as the history (its project data
  is not \<^verbatim>\<open>null\<close>, its score computation returns and there is an object to store the
  score in) puts one entry for the scored project, with the score's total, the
  clock reading taken for it and the active mission, in front of the stored history
  and keeps the first 50 entries; any other call leaves the scores data as it is.
  So after a sequence of calls of which at least one got that far the history holds
  at most 50 entries, newest first: the entries of those calls in reverse order of
  the calls, stamped with clock readings that increase from call to call, followed
  by what was stored before. When no call got that far the history is what it was,
  and a history of at most 50 entries never grows beyond 50.
\<close>

theorem scoreProject_history_newest_first:
  assumes "scoreProjects heur sc w cs = (sc', w')"
  shows "(\<forall>c. cs = [c] \<and> stores_score heur sc w (fst c) (snd c) \<longrightarrow>
            (\<exists>score n. calculateAlignmentScore heur sc w (project_info (fst c) (project_data (snd c)))
                          = (Inr score, n)
               \<and> scoringHistory (scoresData sc') =
                   Some (take 50 (\<lparr>projectName = fst c, totalScore = js_get score ''totalScore'',
                                   timestamp = scorer_clock w (scorer_ticks w + n + 1),
                                   missionId = js_get (missionData sc) ''activeMission''\<rparr> # history_of sc))))
       \<and> (\<forall>c. cs = [c] \<and> \<not> stores_score heur sc w (fst c) (snd c) \<longrightarrow> scoresData sc' = scoresData sc)
       \<and> (scored_calls heur sc w cs = [] \<longrightarrow> scoringHistory (scoresData sc') = scoringHistory (scoresData sc))
       \<and> (scored_calls heur sc w cs \<noteq> [] \<longrightarrow>
            length (history_of sc') \<le> 50
          \<and> map (\<lambda>e. (projectName e, timestamp e)) (history_of sc') =
              take 50 (rev (map (\<lambda>nj. (fst nj, scorer_clock w (snd nj))) (scored_calls heur sc w cs))
                       @ map (\<lambda>e. (projectName e, timestamp e)) (history_of sc)))
       \<and> sorted_wrt (<) (map snd (scored_calls heur sc w cs))
       \<and> (length (history_of sc) \<le> 50 \<longrightarrow> length (history_of sc') \<le> 50)"
proof -
  note h = scoreProjects_history [OF assms]
  let ?pr = "\<lambda>e. (projectName e, timestamp e)"
  have one: "\<forall>c. cs = [c] \<and> stores_score heur sc w (fst c) (snd c) \<longrightarrow>
            (\<exists>score n. calculateAlignmentScore heur sc w (project_info (fst c) (project_data (snd c)))
                          = (Inr score, n)
               \<and> scoringHistory (scoresData sc') =
                   Some (take 50 (\<lparr>projectName = fst c, totalScore = js_get score ''totalScore'',
                                   timestamp = scorer_clock w (scorer_ticks w + n + 1),
                                   missionId = js_get (missionData sc) ''activeMission''\<rparr> # history_of sc)))"
  proof (intro allI impI)
    fix c assume c: "cs = [c] \<and> stores_score heur sc w (fst c) (snd c)"
    obtain r sc1 w1 where step: "scoreProject heur sc w (fst c) (snd c) = (r, sc1, w1)"
      by (cases "scoreProject heur sc w (fst c) (snd c)") auto
    with assms c have "sc1 = sc'" by simp
    with scoreProject_stored [of heur sc w "fst c" "snd c" r sc1 w1] c step
    show "\<exists>score n. calculateAlignmentScore heur sc w (project_info (fst c) (project_data (snd c)))
                          = (Inr score, n)
               \<and> scoringHistory (scoresData sc') =
                   Some (take 50 (\<lparr>projectName = fst c, totalScore = js_get score ''totalScore'',
                                   timestamp = scorer_clock w (scorer_ticks w + n + 1),
                                   missionId = js_get (missionData sc) ''activeMission''\<rparr> # history_of sc))"
      by blast
  qed
  have other: "\<forall>c. cs = [c] \<and> \<not> stores_score heur sc w (fst c) (snd c) \<longrightarrow> scoresData sc' = scoresData sc"
  proof (intro allI impI)
    fix c assume c: "cs = [c] \<and> \<not> stores_score heur sc w (fst c) (snd c)"
    obtain r sc1 w1 where step: "scoreProject heur sc w (fst c) (snd c) = (r, sc1, w1)"
      by (cases "scoreProject heur sc w (fst c) (snd c)") auto
    with assms c have "sc1 = sc'" by simp
    with scoreProject_not_stored [of heur sc w "fst c" "snd c" r sc1 w1] c step
    show "scoresData sc' = scoresData sc" by simp
  qed
  have none: "scored_calls heur sc w cs = [] \<longrightarrow> scoringHistory (scoresData sc') = scoringHistory (scoresData sc)"
    using h by simp
  have some: "scored_calls heur sc w cs \<noteq> [] \<longrightarrow>
            length (history_of sc') \<le> 50
          \<and> map ?pr (history_of sc') =
              take 50 (rev (map (\<lambda>nj. (fst nj, scorer_clock w (snd nj))) (scored_calls heur sc w cs))
                       @ map ?pr (history_of sc))"
  proof
    assume ne: "scored_calls heur sc w cs \<noteq> []"
    with h have m: "map ?pr (history_of sc') =
              take 50 (rev (map (\<lambda>nj. (fst nj, scorer_clock w (snd nj))) (scored_calls heur sc w cs))
                       @ map ?pr (history_of sc))"
      by simp
    have "length (map ?pr (history_of sc')) \<le> 50" unfolding m by simp
    then have l: "length (history_of sc') \<le> 50" by simp
    from l m show "length (history_of sc') \<le> 50
          \<and> map ?pr (history_of sc') =
              take 50 (rev (map (\<lambda>nj. (fst nj, scorer_clock w (snd nj))) (scored_calls heur sc w cs))
                       @ map ?pr (history_of sc))"
      by blast
  qed
  have bound: "length (history_of sc) \<le> 50 \<longrightarrow> length (history_of sc') \<le> 50"
  proof (cases "scored_calls heur sc w cs = []")
    case True
    with h have "history_of sc' = history_of sc" by (simp add: history_of_def)
    then show ?thesis by simp
  next
    case False
    with some show ?thesis by simp
  qed
  from one other none some h bound show ?thesis by blast
qed

theorem scoreProject_history_newest_first_witness:
  "scored_calls example_heuristics example_scorer example_scorer_world example_calls
     = [(''demo'', 1), (''second'', 4)]
   \<and> map (\<lambda>e. (projectName e, timestamp e))
       (history_of (fst (scoreProjects example_heuristics example_scorer example_scorer_world example_calls)))
     = [(''second'', ''t4''), (''demo'', ''t1'')]"
proof -
  have s: "scored_calls example_heuristics example_scorer example_scorer_world example_calls
     = [(''demo'', 1), (''second'', 4)]"
    by code_simp
  have c: "scorer_clock example_scorer_world (Suc 0) = ''t1''" "scorer_clock example_scorer_world 4 = ''t4''"
    by (simp_all add: example_scorer_world_def)
  have h: "history_of example_scorer = []"
    by (simp add: history_of_def example_scorer_def)
  from scoreProject_history_newest_first
    [of example_heuristics example_scorer example_scorer_world example_calls
        "fst (scoreProjects example_heuristics example_scorer example_scorer_world example_calls)"
        "snd (scoreProjects example_heuristics example_scorer example_scorer_world example_calls)"]
  show ?thesis unfolding s by (simp add: c h)
qed

text \<open>
  Not every call prepends an entry. A call that passes \<^verbatim>\<open>null\<close> as project data
  throws while destructuring it, and on a scorer whose scores file lacks
  \<^verbatim>\<open>settings\<close> every call throws at the read of the weightings: the history is
  left as it is, here with the 51 entries it was loaded with.
\<close>

theorem scoreProject_history_counterexample:
  "fst (scoreProject example_heuristics example_scorer example_scorer_world ''demo'' Null) = Inl TypeError
   \<and> history_of (fst (snd (scoreProject example_heuristics example_scorer example_scorer_world ''demo'' Null)))
       = []
   \<and> fst (scoreProject example_heuristics example_unconfigured_scorer example_scorer_world ''demo'' (Obj []))
       = Inl TypeError
   \<and> length (history_of (fst (snd (scoreProject example_heuristics example_unconfigured_scorer
        example_scorer_world ''demo'' (Obj []))))) = 51"
  by code_simp

subsection \<open>Dictionaries\<close>

lemma set_insert_prop: "set (insert_prop k x ps) = insert (k, x) (set ps)"
  by (induction ps) auto

lemma keys_insert_prop: "fst ` set (insert_prop k x ps) = insert k (fst ` set ps)"
  by (simp add: set_insert_prop)

lemma length_insert_prop: "length (insert_prop k x ps) = Suc (length ps)"
  by (induction ps) auto

lemma map_of_insert_prop:
  "map_of ps k = None \<Longrightarrow> map_of (insert_prop k x ps) = (map_of ps)(k \<mapsto> x)"
  by (induction ps) (auto simp: fun_upd_twist split: if_splits)

lemma distinct_insert_prop:
  "distinct (map fst ps) \<Longrightarrow> k \<notin> fst ` set ps \<Longrightarrow> distinct (map fst (insert_prop k x ps))"
  by (induction ps) (auto simp: keys_insert_prop)

lemma map_of_define_prop: "map_of (define_prop k x ps) = (map_of ps)(k \<mapsto> x)"
  by (simp add: define_prop_def update_conv' map_of_insert_prop)

lemma update_member:
  "(k, c) \<in> set (AList.update i cat acc) \<Longrightarrow> (k = i \<and> c = cat) \<or> (k, c) \<in> set acc"
  by (induction acc) (auto split: if_splits)

lemma assign_string_member:
  "(k, c) \<in> set (assign_string i cat acc) \<Longrightarrow> (k = i \<and> c = cat) \<or> (k, c) \<in> set acc"
  by (auto simp: assign_string_def set_insert_prop split: if_splits dest: update_member)

lemma assign_string_keys:
  "fst ` set (assign_string i cat acc) = (if i = ''__proto__'' then {} else {i}) \<union> fst ` set acc"
proof (cases "map_of acc i")
  case None
  then show ?thesis by (auto simp: assign_string_def keys_insert_prop)
next
  case (Some c)
  then have "i \<in> fst ` set acc" by (metis domI dom_map_of_conv_image_fst)
  then have "insert i (fst ` set acc) = fst ` set acc" by (rule insert_absorb)
  with Some show ?thesis by (simp add: assign_string_def dom_update)
qed

lemma assign_string_distinct:
  "distinct (map fst acc) \<Longrightarrow> distinct (map fst (assign_string i cat acc))"
  by (auto simp: assign_string_def distinct_update distinct_insert_prop map_of_eq_None_iff)

lemma fold_assign_member:
  "(k, c) \<in> set (fold (\<lambda>tid a. assign_string tid cat a) ids acc) \<Longrightarrow>
     (k \<in> set ids \<and> c = cat) \<or> (k, c) \<in> set acc"
proof (induction ids arbitrary: acc)
  case Nil
  then show ?case by simp
next
  case (Cons i ids)
  from Cons.prems have "(k, c) \<in> set (fold (\<lambda>tid a. assign_string tid cat a) ids (assign_string i cat acc))"
    by simp
  from Cons.IH [OF this] show ?case
    by (auto dest: assign_string_member)
qed

lemma fold_assign_keys:
  "fst ` set (fold (\<lambda>tid a. assign_string tid cat a) ids acc) = (set ids - {''__proto__''}) \<union> fst ` set acc"
  by (induction ids arbitrary: acc) (auto simp: assign_string_keys)

lemma fold_assign_distinct:
  "distinct (map fst acc) \<Longrightarrow> distinct (map fst (fold (\<lambda>tid a. assign_string tid cat a) ids acc))"
  by (induction ids arbitrary: acc) (simp_all add: assign_string_distinct)


subsection \<open>Saving the index\<close>

lemma saveIndex_result:
  "saveIndex tm w = (ok, tm', w') \<Longrightarrow>
     tm' = tm\<lparr>index := (index tm)\<lparr>lastUpdated := clock w (ticks w)\<rparr>\<rparr>
   \<and> category_dirs w' = category_dirs w
   \<and> fs_log w' = fs_log w @ [WriteFileSync (indexPath tm)]
   \<and> write_outcome w' = write_outcome w \<and> clock w' = clock w \<and> ticks w' = Suc (ticks w)"
  by (auto simp: saveIndex_def writeFileSync_index_def new_Date_def Let_def
           split: write_outcome.splits prod.splits)

subsection \<open>Discovery\<close>

lemma template_path_category:
  "cat \<noteq> [] \<Longrightarrow> template_path tm tid (Some cat) = path_join [templatesDir tm, cat, tid @ ''.json'']"
  by (simp add: template_path_def)

lemma discover_category_cong:
  assumes "category_dirs w' = category_dirs w" and "templatesDir tm' = templatesDir tm"
  shows "discover_category tm' w' = discover_category tm w"
proof -
  have "\<And>d. listed_ids w' d = listed_ids w d"
    using assms(1) by (simp add: listed_ids_def readdirSync_def)
  moreover have "\<And>d. existsSync_dir w' d = existsSync_dir w d"
    using assms(1) by (simp add: existsSync_dir_def)
  ultimately show ?thesis
    using assms(2) by (intro ext) (simp add: discover_category_def Let_def)
qed

lemma filesystemTemplates_cong:
  "category_dirs w' = category_dirs w \<Longrightarrow> templatesDir tm' = templatesDir tm \<Longrightarrow>
     filesystemTemplates tm' w' = filesystemTemplates tm w"
  using discover_category_cong [of w' w tm' tm] by (simp add: filesystemTemplates_def)

lemma read_discovered_cong:
  "category_dirs w' = category_dirs w \<Longrightarrow> templatesDir tm' = templatesDir tm \<Longrightarrow> cat \<noteq> [] \<Longrightarrow>
     read_discovered tm' w' tid cat = read_discovered tm w tid cat"
  by (simp add: read_discovered_def getTemplatePath_def template_path_category readFileSync_def)

lemma listed_ids_absent: "\<not> existsSync_dir w d \<Longrightarrow> listed_ids w d = []"
  by (simp add: listed_ids_def readdirSync_def existsSync_dir_def)

lemma discover_category_fold:
  "discover_category tm w cat acc =
     fold (\<lambda>tid a. assign_string tid cat a) (listed_ids w (path_join [templatesDir tm, cat])) acc"
  by (cases "existsSync_dir w (path_join [templatesDir tm, cat])")
     (simp_all add: discover_category_def listed_ids_absent Let_def)

lemma discover_category_member:
  "(k, c) \<in> set (discover_category tm w cat acc) \<Longrightarrow>
     (k \<in> set (listed_ids w (path_join [templatesDir tm, cat])) \<and> c = cat) \<or> (k, c) \<in> set acc"
  unfolding discover_category_fold by (rule fold_assign_member)

lemma discover_category_keys:
  "fst ` set (discover_category tm w cat acc) =
     (set (listed_ids w (path_join [templatesDir tm, cat])) - {''__proto__''}) \<union> fst ` set acc"
  unfolding discover_category_fold by (rule fold_assign_keys)

lemma discover_category_distinct:
  "distinct (map fst acc) \<Longrightarrow> distinct (map fst (discover_category tm w cat acc))"
  unfolding discover_category_fold by (rule fold_assign_distinct)

lemma filesystemTemplates_unfold:
  "filesystemTemplates tm w =
     discover_category tm w ''component''
       (discover_category tm w ''workflow'' (discover_category tm w ''project'' []))"
  by (simp add: filesystemTemplates_def categories_def)

lemma filesystemTemplates_member:
  assumes "(k, c) \<in> set (filesystemTemplates tm w)"
  shows "c \<in> set categories \<and> k \<in> set (listed_ids w (path_join [templatesDir tm, c]))"
  using assms unfolding filesystemTemplates_unfold
  by (auto dest!: discover_category_member simp: categories_def)

lemma filesystemTemplates_keys:
  "fst ` set (filesystemTemplates tm w) =
     (\<Union>c \<in> set categories. set (listed_ids w (path_join [templatesDir tm, c]))) - {''__proto__''}"
  unfolding filesystemTemplates_unfold
  by (auto simp: discover_category_keys categories_def)

lemma filesystemTemplates_distinct: "distinct (map fst (filesystemTemplates tm w))"
  unfolding filesystemTemplates_unfold
  by (intro discover_category_distinct) simp

lemma categories_nonempty: "c \<in> set categories \<Longrightarrow> c \<noteq> []"
  by (auto simp: categories_def)

lemma map_of_filesystemTemplates_categories:
  "map_of (filesystemTemplates tm w) k = Some c \<Longrightarrow>
     c \<in> set categories \<and> k \<in> set (listed_ids w (path_join [templatesDir tm, c]))"
  by (rule filesystemTemplates_member) (rule map_of_SomeD)

lemma filesystemTemplates_nonempty_categories:
  "\<forall>kc \<in> set (filesystemTemplates tm w). snd kc \<noteq> []"
proof
  fix kc assume "kc \<in> set (filesystemTemplates tm w)"
  then have "(fst kc, snd kc) \<in> set (filesystemTemplates tm w)" by simp
  from filesystemTemplates_member [OF this] show "snd kc \<noteq> []"
    by (simp add: categories_nonempty)
qed

lemma filesystemTemplates_truthy:
  "truthy_string_at (filesystemTemplates tm w) k =
     (map_of (filesystemTemplates tm w) k \<noteq> None \<or> k \<in> set object_prototype_names)"
proof (cases "map_of (filesystemTemplates tm w) k")
  case None
  then show ?thesis by (simp add: truthy_string_at_def)
next
  case (Some c)
  from map_of_filesystemTemplates_categories [OF Some] have "c \<noteq> []"
    by (simp add: categories_nonempty)
  with Some show ?thesis by (simp add: truthy_string_at_def)
qed

lemma proto_not_discovered: "map_of (filesystemTemplates tm w) ''__proto__'' = None"
  by (simp add: map_of_eq_None_iff filesystemTemplates_keys)


subsection \<open>The two loops\<close>

lemma remove_fold:
  "fold (remove_step fsT) xs (cur, n) =
     (filter (\<lambda>kv. \<not> (fst kv \<in> fst ` set xs \<and> \<not> truthy_string_at fsT (fst kv))) cur,
      n + length (filter (\<lambda>kv. \<not> truthy_string_at fsT (fst kv)) xs))"
proof (induction xs arbitrary: cur n)
  case Nil
  then show ?case by simp
next
  case (Cons x xs)
  show ?case
  proof (cases "truthy_string_at fsT (fst x)")
    case False
    have "filter (\<lambda>kv. \<not> (fst kv \<in> fst ` set xs \<and> \<not> truthy_string_at fsT (fst kv))) (AList.delete (fst x) cur)
        = filter (\<lambda>kv. \<not> (fst kv \<in> fst ` set (x # xs) \<and> \<not> truthy_string_at fsT (fst kv))) cur"
      using False by (auto simp: AList.delete_eq intro!: filter_cong)
    moreover have "fold (remove_step fsT) (x # xs) (cur, n)
        = fold (remove_step fsT) xs (AList.delete (fst x) cur, Suc n)"
      using False by (simp add: remove_step_def)
    ultimately show ?thesis using False by (simp only: Cons.IH) simp
  next
    case True
    have "filter (\<lambda>kv. \<not> (fst kv \<in> fst ` set xs \<and> \<not> truthy_string_at fsT (fst kv))) cur
        = filter (\<lambda>kv. \<not> (fst kv \<in> fst ` set (x # xs) \<and> \<not> truthy_string_at fsT (fst kv))) cur"
      using True by (auto intro!: filter_cong)
    moreover have "fold (remove_step fsT) (x # xs) (cur, n) = fold (remove_step fsT) xs (cur, n)"
      using True by (simp add: remove_step_def)
    ultimately show ?thesis using True by (simp only: Cons.IH) simp
  qed
qed

lemma remove_missing_eq:
  "remove_missing fsT ts =
     (filter (\<lambda>kv. truthy_string_at fsT (fst kv)) ts,
      length (filter (\<lambda>kv. \<not> truthy_string_at fsT (fst kv)) ts))"
proof -
  have "filter (\<lambda>kv. \<not> (fst kv \<in> fst ` set ts \<and> \<not> truthy_string_at fsT (fst kv))) ts
      = filter (\<lambda>kv. truthy_string_at fsT (fst kv)) ts"
    by (rule filter_cong) auto
  then show ?thesis by (simp add: remove_missing_def remove_fold)
qed

lemma map_of_filter_keys:
  "map_of (filter (\<lambda>kv. P (fst kv)) ts) k = (if P k then map_of ts k else None)"
  by (induction ts) auto

lemma remove_missing_lookup:
  "map_of (fst (remove_missing fsT ts)) k = (if truthy_string_at fsT k then map_of ts k else None)"
  unfolding remove_missing_eq fst_conv
  using map_of_filter_keys [of "\<lambda>k. truthy_string_at fsT k" ts k] by simp

lemma remove_missing_none:
  assumes "\<forall>k. map_of ts k \<noteq> None \<longrightarrow> truthy_string_at fsT k"
  shows "remove_missing fsT ts = (ts, 0)"
proof -
  have "\<forall>kv \<in> set ts. truthy_string_at fsT (fst kv)"
  proof
    fix kv assume "kv \<in> set ts"
    then have "fst kv \<in> fst ` set ts" by simp
    then have "map_of ts (fst kv) \<noteq> None" by (simp add: map_of_eq_None_iff)
    with assms show "truthy_string_at fsT (fst kv)" by blast
  qed
  then show ?thesis by (simp add: remove_missing_eq)
qed


lemma or_now_world:
  "or_now v w = (x, w') \<Longrightarrow>
     category_dirs w' = category_dirs w \<and> index_file w' = index_file w \<and> fs_log w' = fs_log w
     \<and> write_outcome w' = write_outcome w \<and> clock w' = clock w"
  by (auto simp: or_now_def new_Date_def Let_def split: if_splits)

lemma discovered_entry_result:
  assumes "discovered_entry tm k c td w = (e, w')"
  shows "category e = c \<and> path e = template_path tm k (Some c)
     \<and> category_dirs w' = category_dirs w \<and> index_file w' = index_file w \<and> fs_log w' = fs_log w
     \<and> write_outcome w' = write_outcome w \<and> clock w' = clock w"
proof -
  let ?meta = "js_get td ''meta''"
  obtain x w1 where 1: "or_now (js_get_opt ?meta ''createdAt'') w = (x, w1)"
    by (cases "or_now (js_get_opt ?meta ''createdAt'') w") auto
  obtain y w2 where 2: "or_now (js_get_opt ?meta ''lastModified'') w1 = (y, w2)"
    by (cases "or_now (js_get_opt ?meta ''lastModified'') w1") auto
  from assms 1 2 have "w' = w2" "category e = c" "path e = template_path tm k (Some c)"
    by (auto simp: discovered_entry_def Let_def)
  with or_now_world [OF 1] or_now_world [OF 2] show ?thesis by simp
qed

text \<open>An id that the lookup does not find is assigned as a new own property.\<close>

lemma assign_entry_new:
  "\<not> truthy_entry_at tm k \<Longrightarrow>
     assign_entry tm k e = tm\<lparr>index := (index tm)\<lparr>templates := insert_prop k e (templates (index tm))\<rparr>\<rparr>"
  by (auto simp: truthy_entry_at_def assign_entry_def assign_object_def object_prototype_names_def)

lemma assign_entry_own:
  "map_of (templates (index tm)) k \<noteq> None \<Longrightarrow>
     assign_entry tm k e = tm\<lparr>index := (index tm)\<lparr>templates := AList.update k e (templates (index tm))\<rparr>\<rparr>"
  by (auto simp: assign_entry_def assign_object_def)

lemma add_step_present:
  "truthy_entry_at tm k \<Longrightarrow> add_step (k, c) (tm, w, n) = (tm, w, n)"
  by (simp add: add_step_def)

lemma add_step_unreadable:
  "read_discovered tm w k c = Inl err \<Longrightarrow> add_step (k, c) (tm, w, n) = (tm, w, n)"
  by (simp add: add_step_def)

lemma add_step_added:
  assumes "\<not> truthy_entry_at tm k" and "read_discovered tm w k c = Inr td"
  shows "\<exists>e w'. discovered_entry tm k c td w = (e, w')
           \<and> add_step (k, c) (tm, w, n) =
               (tm\<lparr>index := (index tm)\<lparr>templates := insert_prop k e (templates (index tm))\<rparr>\<rparr>, w', Suc n)"
  using assms by (cases "discovered_entry tm k c td w") (simp add: add_step_def assign_entry_new)

lemma truthy_entry_at_own: "map_of (templates (index tm)) k \<noteq> None \<Longrightarrow> truthy_entry_at tm k"
  by (simp add: truthy_entry_at_def)

lemma truthy_entry_at_mono:
  assumes "truthy_entry_at tm k"
    and "templates_proto tm' = templates_proto tm"
    and "\<forall>k' e. map_of (templates (index tm)) k' = Some e \<longrightarrow> map_of (templates (index tm')) k' = Some e"
  shows "truthy_entry_at tm' k"
  using assms by (auto simp: truthy_entry_at_def)

lemma truthy_entry_at_inherited:
  assumes "map_of (templates (index tm)) k = None"
    and "templates_proto tm' = templates_proto tm"
  shows "truthy_entry_at tm k \<Longrightarrow> truthy_entry_at tm' k"
  using assms by (auto simp: truthy_entry_at_def)

text \<open>One step of the second loop.\<close>

lemma add_step_summary:
  assumes "add_step (k, c) (tm, w, n) = (tm', w', n')"
  shows "templatesDir tm' = templatesDir tm \<and> indexPath tm' = indexPath tm
       \<and> templates_proto tm' = templates_proto tm
       \<and> lastUpdated (index tm') = lastUpdated (index tm)
       \<and> index_version (index tm') = index_version (index tm)
       \<and> category_dirs w' = category_dirs w \<and> index_file w' = index_file w \<and> fs_log w' = fs_log w
       \<and> write_outcome w' = write_outcome w \<and> clock w' = clock w
       \<and> (\<forall>k' e. map_of (templates (index tm)) k' = Some e \<longrightarrow> map_of (templates (index tm')) k' = Some e)
       \<and> (\<forall>k'. map_of (templates (index tm')) k' \<noteq> None \<longrightarrow>
             map_of (templates (index tm)) k' \<noteq> None
             \<or> (k' = k \<and> \<not> truthy_entry_at tm k \<and> (\<exists>td. read_discovered tm w k c = Inr td)))
       \<and> (truthy_entry_at tm' k \<or> (\<exists>err. read_discovered tm w k c = Inl err))
       \<and> (\<not> truthy_entry_at tm k \<longrightarrow> (\<forall>td. read_discovered tm w k c = Inr td \<longrightarrow>
             (\<exists>e. map_of (templates (index tm')) k = Some e \<and> category e = c
                  \<and> path e = template_path tm k (Some c))))"
proof (cases "truthy_entry_at tm k")
  case True
  with assms add_step_present [OF True, of c w n] show ?thesis by auto
next
  case False
  then have none: "map_of (templates (index tm)) k = None"
    by (auto simp: truthy_entry_at_def)
  show ?thesis
  proof (cases "read_discovered tm w k c")
    case (Inl err)
    with assms add_step_unreadable [OF Inl, of n] False show ?thesis by auto
  next
    case (Inr td)
    from add_step_added [OF False Inr, of n] obtain e w1 where
      d: "discovered_entry tm k c td w = (e, w1)" and
      a: "add_step (k, c) (tm, w, n) =
            (tm\<lparr>index := (index tm)\<lparr>templates := insert_prop k e (templates (index tm))\<rparr>\<rparr>, w1, Suc n)"
      by blast
    from a assms have tm': "tm' = tm\<lparr>index := (index tm)\<lparr>templates := insert_prop k e (templates (index tm))\<rparr>\<rparr>"
      and w': "w' = w1" by simp_all
    have m: "map_of (templates (index tm')) = (map_of (templates (index tm)))(k \<mapsto> e)"
      unfolding tm' using none by (simp add: map_of_insert_prop)
    have own: "truthy_entry_at tm' k"
      by (rule truthy_entry_at_own) (simp add: m)
    from discovered_entry_result [OF d] none Inr False own show ?thesis
      unfolding w' m by (auto simp: tm')
  qed
qed


lemma add_fold_frame:
  "fold add_step xs (tm, w, n) = (tm', w', n') \<Longrightarrow>
     templatesDir tm' = templatesDir tm \<and> indexPath tm' = indexPath tm
   \<and> templates_proto tm' = templates_proto tm
   \<and> lastUpdated (index tm') = lastUpdated (index tm)
   \<and> index_version (index tm') = index_version (index tm)
   \<and> category_dirs w' = category_dirs w \<and> index_file w' = index_file w \<and> fs_log w' = fs_log w
   \<and> write_outcome w' = write_outcome w \<and> clock w' = clock w"
proof (induction xs arbitrary: tm w n)
  case Nil
  then show ?case by simp
next
  case (Cons x xs)
  obtain tm1 w1 n1 where s: "add_step (fst x, snd x) (tm, w, n) = (tm1, w1, n1)"
    by (cases "add_step (fst x, snd x) (tm, w, n)") auto
  with Cons.prems have "fold add_step xs (tm1, w1, n1) = (tm', w', n')" by simp
  from Cons.IH [OF this] add_step_summary [OF s] show ?case by simp
qed

lemma add_fold_keeps:
  "fold add_step xs (tm, w, n) = (tm', w', n') \<Longrightarrow> map_of (templates (index tm)) k = Some e \<Longrightarrow>
     map_of (templates (index tm')) k = Some e"
proof (induction xs arbitrary: tm w n)
  case Nil
  then show ?case by simp
next
  case (Cons x xs)
  obtain tm1 w1 n1 where s: "add_step (fst x, snd x) (tm, w, n) = (tm1, w1, n1)"
    by (cases "add_step (fst x, snd x) (tm, w, n)") auto
  with Cons.prems have r: "fold add_step xs (tm1, w1, n1) = (tm', w', n')" by simp
  from add_step_summary [OF s] Cons.prems(2) have "map_of (templates (index tm1)) k = Some e" by blast
  from Cons.IH [OF r this] show ?case .
qed

lemma add_fold_truthy:
  assumes "fold add_step xs (tm, w, n) = (tm', w', n')" and "truthy_entry_at tm k"
  shows "truthy_entry_at tm' k"
proof (rule truthy_entry_at_mono [OF assms(2)])
  from add_fold_frame [OF assms(1)] show "templates_proto tm' = templates_proto tm" by simp
  from add_fold_keeps [OF assms(1)]
  show "\<forall>k' e. map_of (templates (index tm)) k' = Some e \<longrightarrow> map_of (templates (index tm')) k' = Some e"
    by blast
qed

lemma add_fold_bound:
  "fold add_step xs (tm, w, n) = (tm', w', n') \<Longrightarrow> map_of (templates (index tm')) k \<noteq> None \<Longrightarrow>
     map_of (templates (index tm)) k \<noteq> None \<or> k \<in> fst ` set xs"
proof (induction xs arbitrary: tm w n)
  case Nil
  then show ?case by simp
next
  case (Cons x xs)
  obtain tm1 w1 n1 where s: "add_step (fst x, snd x) (tm, w, n) = (tm1, w1, n1)"
    by (cases "add_step (fst x, snd x) (tm, w, n)") auto
  with Cons.prems have r: "fold add_step xs (tm1, w1, n1) = (tm', w', n')" by simp
  from Cons.IH [OF r Cons.prems(2)] have "map_of (templates (index tm1)) k \<noteq> None \<or> k \<in> fst ` set xs" .
  with add_step_summary [OF s] show ?case by auto
qed

lemma add_fold_covers:
  "fold add_step xs (tm, w, n) = (tm', w', n') \<Longrightarrow> (\<forall>kc \<in> set xs. snd kc \<noteq> []) \<Longrightarrow> (k, c) \<in> set xs \<Longrightarrow>
     truthy_entry_at tm' k \<or> (\<exists>err. read_discovered tm w k c = Inl err)"
proof (induction xs arbitrary: tm w n)
  case Nil
  then show ?case by simp
next
  case (Cons x xs)
  obtain tm1 w1 n1 where s: "add_step (fst x, snd x) (tm, w, n) = (tm1, w1, n1)"
    by (cases "add_step (fst x, snd x) (tm, w, n)") auto
  with Cons.prems have r: "fold add_step xs (tm1, w1, n1) = (tm', w', n')" by simp
  note one = add_step_summary [OF s]
  show ?case
  proof (cases "(k, c) = x")
    case True
    then have x: "fst x = k" "snd x = c" by auto
    from one have "truthy_entry_at tm1 k \<or> (\<exists>err. read_discovered tm w k c = Inl err)"
      unfolding x by blast
    then show ?thesis
    proof
      assume "truthy_entry_at tm1 k"
      from add_fold_truthy [OF r this] show ?thesis by simp
    qed blast
  next
    case False
    with Cons.prems have m: "(k, c) \<in> set xs" by auto
    from Cons.prems have ne: "\<forall>kc \<in> set xs. snd kc \<noteq> []" by simp
    from m ne have c: "c \<noteq> []" by force
    from one have "category_dirs w1 = category_dirs w" "templatesDir tm1 = templatesDir tm" by simp_all
    from read_discovered_cong [OF this c, of k] Cons.IH [OF r ne m] show ?thesis by simp
  qed
qed

lemma add_fold_noop:
  "(\<forall>kc \<in> set xs. truthy_entry_at tm (fst kc)
        \<or> (\<exists>err. read_discovered tm w (fst kc) (snd kc) = Inl err)) \<Longrightarrow>
     fold add_step xs (tm, w, n) = (tm, w, n)"
proof (induction xs)
  case Nil
  then show ?case by simp
next
  case (Cons x xs)
  from Cons.prems have "truthy_entry_at tm (fst x)
        \<or> (\<exists>err. read_discovered tm w (fst x) (snd x) = Inl err)" by simp
  then have "add_step x (tm, w, n) = (tm, w, n)"
    by (cases x) (auto simp: add_step_present add_step_unreadable)
  with Cons show ?case by simp
qed

lemma add_fold_adds:
  assumes "fold add_step xs (tm, w, n) = (tm', w', n')"
    and "\<forall>kc \<in> set xs. snd kc \<noteq> []"
    and "distinct (map fst xs)"
    and "(k, c) \<in> set xs"
    and "\<not> truthy_entry_at tm k"
    and "read_discovered tm w k c = Inr td"
  shows "\<exists>e. map_of (templates (index tm')) k = Some e \<and> category e = c
            \<and> path e = path_join [templatesDir tm, c, k @ ''.json'']"
  using assms
proof (induction xs arbitrary: tm w n)
  case Nil
  then show ?case by simp
next
  case (Cons x xs)
  obtain tm1 w1 n1 where s: "add_step (fst x, snd x) (tm, w, n) = (tm1, w1, n1)"
    by (cases "add_step (fst x, snd x) (tm, w, n)") auto
  with Cons.prems have r: "fold add_step xs (tm1, w1, n1) = (tm', w', n')" by simp
  note one = add_step_summary [OF s]
  from Cons.prems have c: "c \<noteq> []" by force
  show ?case
  proof (cases "(k, c) = x")
    case True
    then have x: "fst x = k" "snd x = c" by auto
    from one Cons.prems(5,6) obtain e where
      e: "map_of (templates (index tm1)) k = Some e" "category e = c"
         "path e = template_path tm k (Some c)"
      unfolding x by blast
    from add_fold_keeps [OF r e(1)] e(2,3) c show ?thesis
      by (simp add: template_path_category)
  next
    case False
    with Cons.prems have m: "(k, c) \<in> set xs" by auto
    then have "k \<in> fst ` set xs" by force
    with Cons.prems(3) have ne: "fst x \<noteq> k" by auto
    from Cons.prems(5) have none: "map_of (templates (index tm)) k = None"
      by (auto simp: truthy_entry_at_def)
    from one ne none have none1: "map_of (templates (index tm1)) k = None" by auto
    from one have proto: "templates_proto tm1 = templates_proto tm" by simp
    have nt: "\<not> truthy_entry_at tm1 k"
    proof
      assume "truthy_entry_at tm1 k"
      from truthy_entry_at_inherited [OF none1 _ this, of tm] proto Cons.prems(5)
      show False by simp
    qed
    from one have cd: "category_dirs w1 = category_dirs w" and td: "templatesDir tm1 = templatesDir tm" by simp_all
    from read_discovered_cong [OF cd td c, of k] Cons.prems(6)
    have rd: "read_discovered tm1 w1 k c = Inr td" by simp
    from Cons.prems have "\<forall>kc \<in> set xs. snd kc \<noteq> []" "distinct (map fst xs)" by simp_all
    from Cons.IH [OF r this m nt rd] td show ?thesis by simp
  qed
qed

text \<open>
  A discovered id without an entry for which the lookup finds an inherited member,
  or whose file cannot be read, is left without an entry.
\<close>

lemma add_fold_skips:
  assumes "fold add_step xs (tm, w, n) = (tm', w', n')"
    and "\<forall>kc \<in> set xs. snd kc \<noteq> []"
    and "distinct (map fst xs)"
    and "(k, c) \<in> set xs"
    and "map_of (templates (index tm)) k = None"
    and "truthy_entry_at tm k \<or> (\<exists>err. read_discovered tm w k c = Inl err)"
  shows "map_of (templates (index tm')) k = None"
  using assms
proof (induction xs arbitrary: tm w n)
  case Nil
  then show ?case by simp
next
  case (Cons x xs)
  obtain tm1 w1 n1 where s: "add_step (fst x, snd x) (tm, w, n) = (tm1, w1, n1)"
    by (cases "add_step (fst x, snd x) (tm, w, n)") auto
  with Cons.prems have r: "fold add_step xs (tm1, w1, n1) = (tm', w', n')" by simp
  note one = add_step_summary [OF s]
  from Cons.prems have c: "c \<noteq> []" by force
  show ?case
  proof (cases "(k, c) = x")
    case True
    then have x: "fst x = k" "snd x = c" by auto
    from Cons.prems(6) have "add_step (k, c) (tm, w, n) = (tm, w, n)"
      by (auto simp: add_step_present add_step_unreadable)
    with s have same: "tm1 = tm" unfolding x by simp
    from Cons.prems(3) have "k \<notin> fst ` set xs" unfolding x [symmetric] by simp
    with add_fold_bound [OF r, of k] Cons.prems(5) show ?thesis
      unfolding same by blast
  next
    case False
    with Cons.prems have m: "(k, c) \<in> set xs" by auto
    then have "k \<in> fst ` set xs" by force
    with Cons.prems(3) have ne: "fst x \<noteq> k" by auto
    from one ne Cons.prems(5) have none1: "map_of (templates (index tm1)) k = None" by auto
    from one have proto: "templates_proto tm1 = templates_proto tm" by simp
    from one have cd: "category_dirs w1 = category_dirs w" and td: "templatesDir tm1 = templatesDir tm" by simp_all
    have "truthy_entry_at tm1 k \<or> (\<exists>err. read_discovered tm1 w1 k c = Inl err)"
      using Cons.prems(6) truthy_entry_at_inherited [OF Cons.prems(5) proto]
        read_discovered_cong [OF cd td c, of k]
      by auto
    moreover from Cons.prems have "\<forall>kc \<in> set xs. snd kc \<noteq> []" "distinct (map fst xs)" by simp_all
    ultimately show ?thesis using Cons.IH [OF r _ _ m none1] by blast
  qed
qed

subsection \<open>Reconciliation\<close>

lemma syncTemplateIndex_parts:
  obtains tm2 w2 added ok tm3 w3 where
    "fold add_step (filesystemTemplates tm w)
       (tm\<lparr>index := (index tm)\<lparr>templates := fst (remove_missing (filesystemTemplates tm w) (templates (index tm)))\<rparr>\<rparr>, w, 0)
       = (tm2, w2, added)"
    and "saveIndex tm2 w2 = (ok, tm3, w3)"
    and "syncTemplateIndex tm w =
       (\<lparr>addedCount = added, syncedCount = 0,
         removedCount = snd (remove_missing (filesystemTemplates tm w) (templates (index tm)))\<rparr>, tm3, w3)"
proof -
  let ?F = "filesystemTemplates tm w"
  let ?tm1 = "tm\<lparr>index := (index tm)\<lparr>templates := fst (remove_missing ?F (templates (index tm)))\<rparr>\<rparr>"
  obtain tm2 w2 added where a: "fold add_step ?F (?tm1, w, 0) = (tm2, w2, added)"
    by (cases "fold add_step ?F (?tm1, w, 0)") auto
  obtain ok tm3 w3 where b: "saveIndex tm2 w2 = (ok, tm3, w3)"
    by (cases "saveIndex tm2 w2") auto
  have "syncTemplateIndex tm w =
       (\<lparr>addedCount = added, syncedCount = 0, removedCount = snd (remove_missing ?F (templates (index tm)))\<rparr>, tm3, w3)"
    using a b by (simp add: syncTemplateIndex_def Let_def split_beta)
  with a b that show thesis by blast
qed

lemma sync_frame:
  assumes "syncTemplateIndex tm w = (r, tm', w')"
  shows "category_dirs w' = category_dirs w \<and> fs_log w' = fs_log w @ [WriteFileSync (indexPath tm)]
       \<and> templatesDir tm' = templatesDir tm \<and> indexPath tm' = indexPath tm
       \<and> templates_proto tm' = templates_proto tm"
proof -
  obtain tm2 w2 added ok tm3 w3 where
    a: "fold add_step (filesystemTemplates tm w)
       (tm\<lparr>index := (index tm)\<lparr>templates := fst (remove_missing (filesystemTemplates tm w) (templates (index tm)))\<rparr>\<rparr>, w, 0)
       = (tm2, w2, added)"
    and b: "saveIndex tm2 w2 = (ok, tm3, w3)"
    and c: "syncTemplateIndex tm w =
       (\<lparr>addedCount = added, syncedCount = 0,
         removedCount = snd (remove_missing (filesystemTemplates tm w) (templates (index tm)))\<rparr>, tm3, w3)"
    by (rule syncTemplateIndex_parts)
  from c assms have e: "tm' = tm3" "w' = w3" by simp_all
  from add_fold_frame [OF a] saveIndex_result [OF b] show ?thesis
    unfolding e by simp
qed

text \<open>What one run leaves in the index.\<close>

lemma sync_index:
  assumes "syncTemplateIndex tm w = (r, tm', w')"
  shows "(\<forall>k. map_of (templates (index tm')) k \<noteq> None \<longrightarrow> truthy_string_at (filesystemTemplates tm w) k)"
    and "(\<forall>k. map_of (templates (index tm')) k \<noteq> None \<longrightarrow>
            map_of (filesystemTemplates tm w) k \<noteq> None
            \<or> (k \<in> set object_prototype_names \<and> map_of (templates (index tm)) k \<noteq> None))"
    and "(\<forall>k c. (k, c) \<in> set (filesystemTemplates tm w) \<longrightarrow>
            truthy_entry_at tm' k \<or> (\<exists>err. read_discovered tm w k c = Inl err))"
    and "(\<forall>k e. map_of (templates (index tm)) k = Some e \<and> truthy_string_at (filesystemTemplates tm w) k \<longrightarrow>
            map_of (templates (index tm')) k = Some e)"
    and "(\<forall>k c td. map_of (filesystemTemplates tm w) k = Some c \<and> \<not> truthy_entry_at tm k
              \<and> read_discovered tm w k c = Inr td \<longrightarrow>
            (\<exists>e. map_of (templates (index tm')) k = Some e \<and> category e = c
                 \<and> path e = path_join [templatesDir tm, c, k @ ''.json'']))"
    and "(\<forall>k c. map_of (filesystemTemplates tm w) k = Some c \<and> map_of (templates (index tm)) k = None
              \<and> (truthy_entry_at tm k \<or> (\<exists>err. read_discovered tm w k c = Inl err)) \<longrightarrow>
            map_of (templates (index tm')) k = None)"
proof -
  let ?F = "filesystemTemplates tm w"
  let ?tm1 = "tm\<lparr>index := (index tm)\<lparr>templates := fst (remove_missing ?F (templates (index tm)))\<rparr>\<rparr>"
  obtain tm2 w2 added ok tm3 w3 where
    a: "fold add_step ?F (?tm1, w, 0) = (tm2, w2, added)"
    and b: "saveIndex tm2 w2 = (ok, tm3, w3)"
    and c: "syncTemplateIndex tm w =
       (\<lparr>addedCount = added, syncedCount = 0, removedCount = snd (remove_missing ?F (templates (index tm)))\<rparr>, tm3, w3)"
    by (rule syncTemplateIndex_parts)
  from c assms have e: "tm' = tm3" by simp
  from saveIndex_result [OF b] have t3: "templates (index tm') = templates (index tm2)"
    and p3: "templates_proto tm' = templates_proto tm2"
    unfolding e by simp_all
  have t1: "\<And>k. map_of (templates (index ?tm1)) k =
                  (if truthy_string_at ?F k then map_of (templates (index tm)) k else None)"
    by (simp add: remove_missing_lookup)
  have p1: "templates_proto ?tm1 = templates_proto tm" by simp
  have rd: "\<And>k c. c \<noteq> [] \<Longrightarrow> read_discovered ?tm1 w k c = read_discovered tm w k c"
    by (rule read_discovered_cong) simp_all
  have own_truthy: "\<And>k. k \<in> fst ` set ?F \<Longrightarrow> truthy_string_at ?F k"
    by (simp add: filesystemTemplates_truthy map_of_eq_None_iff)
  have bound: "\<And>k. map_of (templates (index tm')) k \<noteq> None \<Longrightarrow>
                 map_of (templates (index ?tm1)) k \<noteq> None \<or> k \<in> fst ` set ?F"
    using add_fold_bound [OF a] by (simp add: t3)
  show "\<forall>k. map_of (templates (index tm')) k \<noteq> None \<longrightarrow> truthy_string_at ?F k"
  proof (intro allI impI)
    fix k assume "map_of (templates (index tm')) k \<noteq> None"
    from bound [OF this] show "truthy_string_at ?F k"
    proof
      assume "map_of (templates (index ?tm1)) k \<noteq> None"
      then show ?thesis unfolding t1 by (auto split: if_splits)
    next
      assume "k \<in> fst ` set ?F"
      then show ?thesis by (rule own_truthy)
    qed
  qed
  show "\<forall>k. map_of (templates (index tm')) k \<noteq> None \<longrightarrow>
            map_of ?F k \<noteq> None \<or> (k \<in> set object_prototype_names \<and> map_of (templates (index tm)) k \<noteq> None)"
  proof (intro allI impI)
    fix k assume "map_of (templates (index tm')) k \<noteq> None"
    from bound [OF this]
    show "map_of ?F k \<noteq> None \<or> (k \<in> set object_prototype_names \<and> map_of (templates (index tm)) k \<noteq> None)"
    proof
      assume "map_of (templates (index ?tm1)) k \<noteq> None"
      then have "truthy_string_at ?F k" "map_of (templates (index tm)) k \<noteq> None"
        unfolding t1 by (auto split: if_splits)
      then show ?thesis by (auto simp: filesystemTemplates_truthy)
    next
      assume "k \<in> fst ` set ?F"
      then show ?thesis by (simp add: map_of_eq_None_iff)
    qed
  qed
  show "\<forall>k c. (k, c) \<in> set ?F \<longrightarrow>
            truthy_entry_at tm' k \<or> (\<exists>err. read_discovered tm w k c = Inl err)"
  proof (intro allI impI)
    fix k c assume m: "(k, c) \<in> set ?F"
    from filesystemTemplates_member [OF m] have "c \<noteq> []" by (simp add: categories_nonempty)
    from add_fold_covers [OF a filesystemTemplates_nonempty_categories m] rd [OF this]
    have "truthy_entry_at tm2 k \<or> (\<exists>err. read_discovered tm w k c = Inl err)" by simp
    then show "truthy_entry_at tm' k \<or> (\<exists>err. read_discovered tm w k c = Inl err)"
      by (auto simp: truthy_entry_at_def t3 p3)
  qed
  show "\<forall>k e. map_of (templates (index tm)) k = Some e \<and> truthy_string_at ?F k \<longrightarrow>
            map_of (templates (index tm')) k = Some e"
  proof (intro allI impI)
    fix k e assume "map_of (templates (index tm)) k = Some e \<and> truthy_string_at ?F k"
    then have "map_of (templates (index ?tm1)) k = Some e" unfolding t1 by auto
    from add_fold_keeps [OF a this] show "map_of (templates (index tm')) k = Some e" by (simp add: t3)
  qed
  show "\<forall>k c td. map_of ?F k = Some c \<and> \<not> truthy_entry_at tm k
              \<and> read_discovered tm w k c = Inr td \<longrightarrow>
            (\<exists>e. map_of (templates (index tm')) k = Some e \<and> category e = c
                 \<and> path e = path_join [templatesDir tm, c, k @ ''.json''])"
  proof (intro allI impI)
    fix k c td assume h: "map_of ?F k = Some c \<and> \<not> truthy_entry_at tm k
              \<and> read_discovered tm w k c = Inr td"
    then have m: "(k, c) \<in> set ?F" by (auto dest: map_of_SomeD)
    from filesystemTemplates_member [OF m] have c: "c \<noteq> []" by (simp add: categories_nonempty)
    from h have nt: "\<not> truthy_entry_at ?tm1 k"
      by (auto simp: truthy_entry_at_def remove_missing_lookup)
    from h rd [OF c] have r: "read_discovered ?tm1 w k c = Inr td" by simp
    from add_fold_adds [OF a filesystemTemplates_nonempty_categories filesystemTemplates_distinct m nt r]
    show "\<exists>e. map_of (templates (index tm')) k = Some e \<and> category e = c
                 \<and> path e = path_join [templatesDir tm, c, k @ ''.json'']"
      by (simp add: t3)
  qed
  show "\<forall>k c. map_of ?F k = Some c \<and> map_of (templates (index tm)) k = None
              \<and> (truthy_entry_at tm k \<or> (\<exists>err. read_discovered tm w k c = Inl err)) \<longrightarrow>
            map_of (templates (index tm')) k = None"
  proof (intro allI impI)
    fix k c assume h: "map_of ?F k = Some c \<and> map_of (templates (index tm)) k = None
              \<and> (truthy_entry_at tm k \<or> (\<exists>err. read_discovered tm w k c = Inl err))"
    then have m: "(k, c) \<in> set ?F" by (auto dest: map_of_SomeD)
    from filesystemTemplates_member [OF m] have c: "c \<noteq> []" by (simp add: categories_nonempty)
    from h have none: "map_of (templates (index ?tm1)) k = None" unfolding t1 by simp
    from h have "truthy_entry_at ?tm1 k \<or> (\<exists>err. read_discovered ?tm1 w k c = Inl err)"
      using truthy_entry_at_inherited [of tm k ?tm1] rd [OF c, of k] by auto
    from add_fold_skips [OF a filesystemTemplates_nonempty_categories filesystemTemplates_distinct m none this]
    show "map_of (templates (index tm')) k = None" by (simp add: t3)
  qed
qed


lemma sync_twice:
  assumes 1: "syncTemplateIndex tm w = (r1, tm1, w1)"
    and 2: "syncTemplateIndex tm1 w1 = (r2, tm2, w2)"
  shows "addedCount r2 = 0 \<and> removedCount r2 = 0 \<and> templates (index tm2) = templates (index tm1)"
proof -
  let ?F = "filesystemTemplates tm w"
  from sync_frame [OF 1] have cd: "category_dirs w1 = category_dirs w"
    and td: "templatesDir tm1 = templatesDir tm" by simp_all
  from cd td have F: "filesystemTemplates tm1 w1 = ?F" by (rule filesystemTemplates_cong)
  from sync_index(1) [OF 1] have "\<forall>k. map_of (templates (index tm1)) k \<noteq> None \<longrightarrow> truthy_string_at ?F k" .
  then have rm: "remove_missing ?F (templates (index tm1)) = (templates (index tm1), 0)"
    by (rule remove_missing_none)
  have same: "tm1\<lparr>index := (index tm1)\<lparr>templates := templates (index tm1)\<rparr>\<rparr> = tm1" by simp
  have "\<forall>kc \<in> set ?F. truthy_entry_at tm1 (fst kc)
          \<or> (\<exists>err. read_discovered tm1 w1 (fst kc) (snd kc) = Inl err)"
  proof
    fix kc assume m: "kc \<in> set ?F"
    then have m': "(fst kc, snd kc) \<in> set ?F" by simp
    from filesystemTemplates_member [OF m'] have c: "snd kc \<noteq> []" by (simp add: categories_nonempty)
    from sync_index(3) [OF 1] m' have "truthy_entry_at tm1 (fst kc)
          \<or> (\<exists>err. read_discovered tm w (fst kc) (snd kc) = Inl err)" by blast
    with read_discovered_cong [OF cd td c, of "fst kc"]
    show "truthy_entry_at tm1 (fst kc)
          \<or> (\<exists>err. read_discovered tm1 w1 (fst kc) (snd kc) = Inl err)" by simp
  qed
  then have noop: "fold add_step ?F (tm1, w1, 0) = (tm1, w1, 0)" by (rule add_fold_noop)
  obtain tmb wb added ok tmc wc where
    a: "fold add_step (filesystemTemplates tm1 w1)
       (tm1\<lparr>index := (index tm1)\<lparr>templates := fst (remove_missing (filesystemTemplates tm1 w1) (templates (index tm1)))\<rparr>\<rparr>, w1, 0)
       = (tmb, wb, added)"
    and b: "saveIndex tmb wb = (ok, tmc, wc)"
    and c: "syncTemplateIndex tm1 w1 =
       (\<lparr>addedCount = added, syncedCount = 0,
         removedCount = snd (remove_missing (filesystemTemplates tm1 w1) (templates (index tm1)))\<rparr>, tmc, wc)"
    by (rule syncTemplateIndex_parts)
  from a have "(tmb, wb, added) = (tm1, w1, 0)"
    unfolding F rm fst_conv same noop by simp
  then have e: "tmb = tm1" "added = 0" by simp_all
  from saveIndex_result [OF b] have "templates (index tmc) = templates (index tm1)"
    unfolding e by simp
  with c 2 e show ?thesis unfolding F rm by auto
qed

text \<open>
  C2. Reconciliation is idempotent: whatever the index and the directories hold, a
  second run of \<open>syncTemplateIndex\<close> right after a first one reports no entry added
  and no entry removed and leaves the entries of the index as they are.
\<close>

theorem syncTemplateIndex_idempotent:
  "(case syncTemplateIndex tm w of (r1, tm1, w1) \<Rightarrow>
      (case syncTemplateIndex tm1 w1 of (r2, tm2, w2) \<Rightarrow>
         addedCount r2 = 0 \<and> removedCount r2 = 0 \<and> templates (index tm2) = templates (index tm1)))"
proof -
  obtain r1 tm1 w1 where 1: "syncTemplateIndex tm w = (r1, tm1, w1)"
    by (cases "syncTemplateIndex tm w") auto
  obtain r2 tm2 w2 where 2: "syncTemplateIndex tm1 w1 = (r2, tm2, w2)"
    by (cases "syncTemplateIndex tm1 w1") auto
  from sync_twice [OF 1 2] show ?thesis by (simp add: 1 2)
qed

theorem syncTemplateIndex_idempotent_witness:
  "addedCount (fst (syncTemplateIndex example_manager example_world)) = 1
   \<and> removedCount (fst (syncTemplateIndex example_manager example_world)) = 1
   \<and> addedCount (fst (syncTemplateIndex
        (fst (snd (syncTemplateIndex example_manager example_world)))
        (snd (snd (syncTemplateIndex example_manager example_world))))) = 0
   \<and> removedCount (fst (syncTemplateIndex
        (fst (snd (syncTemplateIndex example_manager example_world)))
        (snd (snd (syncTemplateIndex example_manager example_world))))) = 0"
proof -
  have first: "addedCount (fst (syncTemplateIndex example_manager example_world)) = 1"
    "removedCount (fst (syncTemplateIndex example_manager example_world)) = 1"
    by code_simp+
  from syncTemplateIndex_idempotent [of example_manager example_world] first
  show ?thesis by (simp add: split_beta)
qed

text \<open>
  C8. Reconciliation never deletes physical data: the listing of every directory
  under the templates directory, files and subdirectories with their contents, is
  after a run what it was before, and the one mutating filesystem call of the run is
  the write of the index file.
\<close>

theorem syncTemplateIndex_keeps_files:
  "category_dirs (snd (snd (syncTemplateIndex tm w))) = category_dirs w
   \<and> fs_log (snd (snd (syncTemplateIndex tm w))) = fs_log w @ [WriteFileSync (indexPath tm)]"
proof -
  obtain r tm' w' where 1: "syncTemplateIndex tm w = (r, tm', w')"
    by (cases "syncTemplateIndex tm w") auto
  from sync_frame [OF 1] show ?thesis by (simp add: 1)
qed

theorem syncTemplateIndex_keeps_files_witness:
  "category_dirs (snd (snd (syncTemplateIndex example_manager example_world))) ''docs/templates/project''
     = Some [(''broken.json'', File (Garbage ''{'')),
             (''fresh.json'', File (Json (Obj [(''meta'', Obj [(''name'', Str ''Fresh'')])])))]
   \<and> fs_log (snd (snd (syncTemplateIndex example_manager example_world)))
     = [WriteFileSync ''docs/templates/template-index.json'']"
  using syncTemplateIndex_keeps_files [of example_manager example_world]
  by (simp add: example_world_def example_manager_def)




subsection \<open>Loading and saving the index\<close>

text \<open>
  C5. \<open>saveIndex\<close> sets \<open>lastUpdated\<close> of the index to the time of saving
  and then overwrites the index file in place with one \<^verbatim>\<open>writeFileSync\<close> of the whole
  serialized index: no fresh file is written and nothing is renamed. It returns
  \<^verbatim>\<open>true\<close> when the write completes; when the write throws it returns \<^verbatim>\<open>false\<close> and
  the index file is what the failed write left, untouched or partially written.
\<close>

theorem saveIndex_overwrites_in_place:
  assumes "saveIndex tm w = (ok, tm', w')"
  shows "index tm' = (index tm)\<lparr>lastUpdated := clock w (ticks w)\<rparr>
       \<and> fs_log w' = fs_log w @ [WriteFileSync (indexPath tm)]
       \<and> category_dirs w' = category_dirs w
       \<and> (write_outcome w (indexPath tm) = Completes \<longrightarrow>
             ok \<and> index_file w' = Some (IndexJson (index tm')))
       \<and> (write_outcome w (indexPath tm) = FailsUntouched \<longrightarrow>
             \<not> ok \<and> index_file w' = index_file w)
       \<and> (\<forall>s. write_outcome w (indexPath tm) = FailsPartial s \<longrightarrow>
             \<not> ok \<and> index_file w' = Some (IndexGarbage s))"
  using assms
  by (auto simp: saveIndex_def writeFileSync_index_def new_Date_def Let_def
           split: write_outcome.splits prod.splits)

theorem saveIndex_overwrites_in_place_witness:
  "write_outcome example_world (indexPath example_manager) = Completes
   \<and> fst (saveIndex example_manager example_world)
   \<and> index_file (snd (snd (saveIndex example_manager example_world)))
       = Some (IndexJson ((index example_manager)\<lparr>lastUpdated := ''now''\<rparr>))
   \<and> fs_log (snd (snd (saveIndex example_manager example_world)))
       = [WriteFileSync ''docs/templates/template-index.json'']"
proof -
  have run: "saveIndex example_manager example_world =
      (fst (saveIndex example_manager example_world),
       fst (snd (saveIndex example_manager example_world)),
       snd (snd (saveIndex example_manager example_world)))"
    by simp
  have c: "write_outcome example_world (indexPath example_manager) = Completes"
    by (simp add: example_world_def)
  from saveIndex_overwrites_in_place [OF run] c show ?thesis
    by (simp add: example_world_def example_manager_def)
qed

text \<open>
  The write is not atomic: when the disk fills up during the write, the valid index
  that was in place is left partially written, by the single call that targets the
  index file itself.
\<close>

theorem saveIndex_atomic_counterexample:
  "index_file example_failing_world = Some (IndexJson (index example_manager))
   \<and> fst (saveIndex example_manager example_failing_world) = False
   \<and> index_file (snd (snd (saveIndex example_manager example_failing_world))) = Some (IndexGarbage ''{'')
   \<and> fs_log (snd (snd (saveIndex example_manager example_failing_world)))
       = [WriteFileSync (indexPath example_manager)]"
  by (simp add: saveIndex_def writeFileSync_index_def new_Date_def Let_def
        example_failing_world_def example_world_def)

text \<open>
  C6. \<open>loadIndex\<close> does not fail. Whenever the index file is absent or cannot be
  read back as JSON it returns an empty index, and reconciliation then rebuilds the
  entries from the directories: from that empty index, every discovered template
  whose file parses, and whose id is not the name of a member of
  \<^verbatim>\<open>Object.prototype\<close>, gets its entry. A file that parses is returned as it was
  parsed, with no check of its shape.
\<close>

theorem loadIndex_recovers:
  "(index_file w = None \<or> (\<exists>s. index_file w = Some (IndexGarbage s)) \<longrightarrow>
      loadIndex w = (Loaded \<lparr>templates = [], lastUpdated = clock w (ticks w), index_version = ''1.0.0''\<rparr>,
                     w\<lparr>ticks := Suc (ticks w)\<rparr>)
      \<and> (\<forall>tm r tm' w' k c td.
             fst (loadIndex w) = Loaded (index tm) \<and> templates_proto tm = None
             \<and> syncTemplateIndex tm (snd (loadIndex w)) = (r, tm', w')
             \<and> map_of (filesystemTemplates tm w) k = Some c \<and> k \<notin> set object_prototype_names
             \<and> read_discovered tm w k c = Inr td \<longrightarrow>
             (\<exists>e. map_of (templates (index tm')) k = Some e \<and> category e = c)))
   \<and> (\<forall>i. index_file w = Some (IndexJson i) \<longrightarrow> loadIndex w = (Loaded (roundtrip_index i), w))
   \<and> (\<forall>v. index_file w = Some (IndexOther v) \<longrightarrow> loadIndex w = (LoadedOther (JSON_roundtrip v), w))"
proof (intro conjI impI allI)
  assume a: "index_file w = None \<or> (\<exists>s. index_file w = Some (IndexGarbage s))"
  then show "loadIndex w = (Loaded \<lparr>templates = [], lastUpdated = clock w (ticks w), index_version = ''1.0.0''\<rparr>,
                        w\<lparr>ticks := Suc (ticks w)\<rparr>)"
    by (auto simp: loadIndex_def new_Date_def)
next
  fix tm r tm' w' k c td
  assume a: "index_file w = None \<or> (\<exists>s. index_file w = Some (IndexGarbage s))"
  assume h: "fst (loadIndex w) = Loaded (index tm) \<and> templates_proto tm = None
             \<and> syncTemplateIndex tm (snd (loadIndex w)) = (r, tm', w')
             \<and> map_of (filesystemTemplates tm w) k = Some c \<and> k \<notin> set object_prototype_names
             \<and> read_discovered tm w k c = Inr td"
  from a have l: "loadIndex w = (Loaded \<lparr>templates = [], lastUpdated = clock w (ticks w), index_version = ''1.0.0''\<rparr>,
                        w\<lparr>ticks := Suc (ticks w)\<rparr>)"
    by (auto simp: loadIndex_def new_Date_def)
  let ?w1 = "w\<lparr>ticks := Suc (ticks w)\<rparr>"
  have cd: "category_dirs ?w1 = category_dirs w" by simp
  from h l have run: "syncTemplateIndex tm ?w1 = (r, tm', w')" by simp
  from h l have "templates (index tm) = []" by (cases "index tm") auto
  with h have nt: "\<not> truthy_entry_at tm k" by (simp add: truthy_entry_at_def)
  from h have F: "map_of (filesystemTemplates tm ?w1) k = Some c"
    by (simp add: filesystemTemplates_cong [OF cd])
  from map_of_filesystemTemplates_categories [OF F] have c: "c \<noteq> []"
    by (simp add: categories_nonempty)
  from h read_discovered_cong [OF cd _ c, of tm tm k] have rd: "read_discovered tm ?w1 k c = Inr td"
    by simp
  from sync_index(5) [OF run] F nt rd
  show "\<exists>e. map_of (templates (index tm')) k = Some e \<and> category e = c" by blast
next
  fix i assume "index_file w = Some (IndexJson i)"
  then show "loadIndex w = (Loaded (roundtrip_index i), w)" by (simp add: loadIndex_def)
next
  fix v assume "index_file w = Some (IndexOther v)"
  then show "loadIndex w = (LoadedOther (JSON_roundtrip v), w)" by (simp add: loadIndex_def)
qed

theorem loadIndex_recovers_witness:
  "index_file example_world = None
   \<and> fst (loadIndex example_world) = Loaded (index example_empty_manager)
   \<and> map_option category (map_of (templates (index (fst (snd (syncTemplateIndex
        example_empty_manager (snd (loadIndex example_world))))))) ''moved'') = Some ''workflow''"
proof -
  let ?tm = "example_empty_manager"
  have a: "index_file example_world = None"
    by (simp add: example_world_def)
  have run: "syncTemplateIndex ?tm (snd (loadIndex example_world)) =
      (fst (syncTemplateIndex ?tm (snd (loadIndex example_world))),
       fst (snd (syncTemplateIndex ?tm (snd (loadIndex example_world)))),
       snd (snd (syncTemplateIndex ?tm (snd (loadIndex example_world)))))"
    by simp
  have i: "fst (loadIndex example_world) = Loaded (index ?tm)" "templates_proto ?tm = None"
    "''moved'' \<notin> set object_prototype_names"
    by code_simp+
  have F: "map_of (filesystemTemplates ?tm example_world) ''moved'' = Some ''workflow''"
    by code_simp
  have rd: "read_discovered ?tm example_world ''moved'' ''workflow'' = Inr (Obj [])"
    by code_simp
  from loadIndex_recovers [of example_world] a i run F rd obtain e where
    "map_of (templates (index (fst (snd (syncTemplateIndex ?tm (snd (loadIndex example_world))))))) ''moved'' = Some e"
    "category e = ''workflow''"
    by blast
  with a i show ?thesis by simp
qed

text \<open>
  A malformed index file can be fatal, and not every file is picked up again. An
  index file holding \<^verbatim>\<open>{}\<close> parses, so \<open>loadIndex\<close> hands back that object in place
  of an index, and \<^verbatim>\<open>templateExists\<close>, the first statement of \<^verbatim>\<open>createTemplate\<close>,
  \<^verbatim>\<open>readTemplate\<close> and \<^verbatim>\<open>updateTemplate\<close>, throws on it. And from the empty index
  reconciliation leaves the readable \<^verbatim>\<open>constructor.json\<close> without an entry.
\<close>

theorem loadIndex_recovers_counterexample:
  "index_file example_unshaped_world = Some (IndexOther (Obj []))
   \<and> fst (loadIndex example_unshaped_world) = LoadedOther (Obj [])
   \<and> templateExists_on (Obj []) ''demo'' = Inl TypeError
   \<and> index_file example_named_world = None
   \<and> fst (loadIndex example_named_world) = Loaded (index example_empty_manager)
   \<and> ''constructor.json'' \<in> set (readdirSync example_named_world ''docs/templates/project'')
   \<and> read_discovered example_empty_manager example_named_world ''constructor'' ''project''
       = Inr (Obj [(''meta'', Obj [(''name'', Str ''C'')])])
   \<and> templates (index (fst (snd (syncTemplateIndex example_empty_manager
        (snd (loadIndex example_named_world)))))) = []"
  by code_simp

subsection \<open>Creating a template\<close>

lemma writeFileSync_completes:
  assumes "category_dirs w (fst p) = Some l" and "map_of l (snd p) \<noteq> Some Dir"
    and "write_outcome w ps = Completes"
  shows "\<exists>w'. writeFileSync w ps p t = (None, w') \<and> readFileSync w' p = Inr t
           \<and> write_outcome w' = write_outcome w \<and> clock w' = clock w \<and> ticks w' = ticks w"
  using assms
  by (simp add: writeFileSync_def put_file_def readFileSync_def Let_def update_conv')

lemma saveIndex_keeps:
  "saveIndex tm w = (ok, tm', w') \<Longrightarrow>
     templates (index tm') = templates (index tm) \<and> readFileSync w' p = readFileSync w p"
  by (auto simp: saveIndex_def writeFileSync_index_def new_Date_def Let_def readFileSync_def
           split: write_outcome.splits prod.splits)

lemma templateExists_plain:
  "map_of (templates (index tm)) ''hasOwnProperty'' = None \<Longrightarrow>
     templateExists tm tid = Inr (map_of (templates (index tm)) tid \<noteq> None)"
  by (simp add: templateExists_def)

lemma createTemplate_collision:
  "map_of (templates (index tm)) ''hasOwnProperty'' = None \<Longrightarrow> map_of (templates (index tm)) tid \<noteq> None \<Longrightarrow>
     createTemplate tm w tid cat td = (Inl (TemplateAlreadyExists tid), tm, w)"
  by (simp add: createTemplate_def templateExists_plain)

lemma createTemplate_failure:
  "createTemplate tm w tid cat td = (Inl e, tm', w') \<Longrightarrow> tm' = tm"
  by (auto simp: createTemplate_def Let_def split: if_splits prod.splits option.splits sum.splits bool.splits)

lemma createTemplate_success:
  assumes plain: "map_of (templates (index tm)) ''hasOwnProperty'' = None"
    and fresh: "map_of (templates (index tm)) tid = None" "tid \<noteq> ''__proto__''"
    and cat: "cat \<in> set validCategories"
    and td: "\<not> nullish td" "truthy (js_get td ''meta'')" "truthy (js_get (js_get td ''meta'') ''name'')"
    and dir: "category_dirs w (fst (getTemplatePath tm tid (Some cat))) = Some l"
             "map_of l (snd (getTemplatePath tm tid (Some cat))) \<noteq> Some Dir"
    and wr: "write_outcome w (path_join [templatesDir tm, cat, tid @ ''.json'']) = Completes"
  shows "\<exists>template tm' w' e. createTemplate tm w tid cat td = (Inr template, tm', w')
          \<and> map_of (templates (index tm')) = (map_of (templates (index tm)))(tid \<mapsto> e)
          \<and> length (templates (index tm')) = Suc (length (templates (index tm)))
          \<and> category e = cat
          \<and> path e = path_join [templatesDir tm, cat, tid @ ''.json'']
          \<and> readFileSync w' (getTemplatePath tm tid (Some cat)) = Inr (Json template)"
proof -
  from cat have ne: "cat \<noteq> []" by (auto simp: validCategories_def)
  let ?ps = "path_join [templatesDir tm, cat, tid @ ''.json'']"
  from ne have tp: "template_path tm tid (Some cat) = ?ps" by (rule template_path_category)
  let ?p = "getTemplatePath tm tid (Some cat)"
  have p: "split_path ?ps = ?p" by (simp add: getTemplatePath_def tp)
  obtain t1 w1 where d1: "new_Date w = (t1, w1)" by (cases "new_Date w") auto
  obtain t2 w2 where d2: "new_Date w1 = (t2, w2)" by (cases "new_Date w1") auto
  from d1 d2 have w2: "category_dirs w2 = category_dirs w" "write_outcome w2 = write_outcome w"
    by (auto simp: new_Date_def)
  let ?template = "new_template tid cat td t1 t2"
  from dir w2 have dir2: "category_dirs w2 (fst ?p) = Some l" "map_of l (snd ?p) \<noteq> Some Dir" by simp_all
  from wr w2 have wr2: "write_outcome w2 ?ps = Completes" by simp
  from writeFileSync_completes [OF dir2 wr2, of "Json ?template"] obtain w3 where
    w3: "writeFileSync w2 ?ps ?p (Json ?template) = (None, w3)"
        "readFileSync w3 ?p = Inr (Json ?template)"
    by blast
  let ?meta = "js_get ?template ''meta''"
  let ?e = "\<lparr>category = cat, name = js_get ?meta ''name'', description = js_get ?meta ''description'',
            version = js_get ?meta ''version'', path = ?ps,
            createdAt = js_get ?meta ''createdAt'', lastModified = js_get ?meta ''lastModified'',
            tags = js_get ?meta ''tags''\<rparr>"
  let ?tm1 = "assign_entry tm tid ?e"
  have tm1: "?tm1 = tm\<lparr>index := (index tm)\<lparr>templates := insert_prop tid ?e (templates (index tm))\<rparr>\<rparr>"
    using fresh by (simp add: assign_entry_def assign_object_def)
  obtain ok tm2 w4 where s: "saveIndex ?tm1 w3 = (ok, tm2, w4)" by (cases "saveIndex ?tm1 w3") auto
  from plain fresh td cat have "createTemplate tm w tid cat td = (Inr ?template, tm2, w4)"
    unfolding createTemplate_def by (simp add: templateExists_plain d1 d2 tp p w3 s Let_def)
  moreover from saveIndex_keeps [OF s, of ?p] w3(2)
  have "templates (index tm2) = insert_prop tid ?e (templates (index tm))"
    "readFileSync w4 ?p = Inr (Json ?template)"
    by (simp_all add: tm1)
  then have "map_of (templates (index tm2)) = (map_of (templates (index tm)))(tid \<mapsto> ?e)"
    "length (templates (index tm2)) = Suc (length (templates (index tm)))"
    "readFileSync w4 ?p = Inr (Json ?template)"
    using fresh by (simp_all add: map_of_insert_prop length_insert_prop)
  moreover have "category ?e = cat" "path ?e = ?ps" by simp_all
  ultimately show ?thesis by blast
qed

text \<open>
  C1. For every index without an entry named \<^verbatim>\<open>hasOwnProperty\<close> and every name
  that already has an entry, under whatever category, \<open>createTemplate\<close> with that name
  fails with the name-collision error, whatever category the request names, and
  leaves index, files and clock as they are. For a name with no entry, other than
  \<^verbatim>\<open>__proto__\<close>, it succeeds and adds exactly one entry, for that name, when the
  category is one of project, workflow, component, the template data carries a
  \<^verbatim>\<open>meta.name\<close>, and the template file can be written; and a call that fails leaves
  the index as it is.
\<close>

theorem createTemplate_registers:
  "(map_of (templates (index tm)) ''hasOwnProperty'' = None \<and> map_of (templates (index tm)) tid \<noteq> None \<longrightarrow>
      createTemplate tm w tid cat td = (Inl (TemplateAlreadyExists tid), tm, w))
   \<and> (map_of (templates (index tm)) ''hasOwnProperty'' = None
        \<and> map_of (templates (index tm)) tid = None \<and> tid \<noteq> ''__proto__''
        \<and> cat \<in> set validCategories
        \<and> \<not> nullish td \<and> truthy (js_get td ''meta'') \<and> truthy (js_get (js_get td ''meta'') ''name'')
        \<and> category_dirs w (fst (getTemplatePath tm tid (Some cat))) = Some l
        \<and> map_of l (snd (getTemplatePath tm tid (Some cat))) \<noteq> Some Dir
        \<and> path_join [templatesDir tm, cat, tid @ ''.json''] \<noteq> indexPath tm
        \<and> write_outcome w (path_join [templatesDir tm, cat, tid @ ''.json'']) = Completes \<longrightarrow>
      (\<exists>template tm' w' e. createTemplate tm w tid cat td = (Inr template, tm', w')
          \<and> map_of (templates (index tm')) = (map_of (templates (index tm)))(tid \<mapsto> e)
          \<and> length (templates (index tm')) = Suc (length (templates (index tm)))
          \<and> category e = cat
          \<and> path e = path_join [templatesDir tm, cat, tid @ ''.json'']
          \<and> readFileSync w' (getTemplatePath tm tid (Some cat)) = Inr (Json template)))
   \<and> (\<forall>e tm' w'. createTemplate tm w tid cat td = (Inl e, tm', w') \<longrightarrow> tm' = tm)"
  using createTemplate_collision [of tm tid w cat td] createTemplate_success [of tm tid cat td w l]
    createTemplate_failure [of tm w tid cat td]
  by blast


theorem createTemplate_registers_witness:
  "map_of (templates (index example_manager)) ''demo'' = None
   \<and> map fst (templates (index (fst (snd
         (createTemplate example_manager example_world ''demo'' ''project'' example_template_data)))))
       = [''moved'', ''gone'', ''demo'']
   \<and> fst (createTemplate
         (fst (snd (createTemplate example_manager example_world ''demo'' ''project'' example_template_data)))
         (snd (snd (createTemplate example_manager example_world ''demo'' ''project'' example_template_data)))
         ''demo'' ''workflow'' example_template_data)
       = Inl (TemplateAlreadyExists ''demo'')"
proof -
  let ?run = "createTemplate example_manager example_world ''demo'' ''project'' example_template_data"
  let ?l = "[(''broken.json'', File (Garbage ''{'')),
             (''fresh.json'', File (Json (Obj [(''meta'', Obj [(''name'', Str ''Fresh'')])])))]"
  have fresh: "map_of (templates (index example_manager)) ''hasOwnProperty'' = None"
    "map_of (templates (index example_manager)) ''demo'' = None" "''demo'' \<noteq> ''__proto__''"
    by code_simp+
  have pre: "''project'' \<in> set validCategories" "\<not> nullish example_template_data"
    "truthy (js_get example_template_data ''meta'')"
    "truthy (js_get (js_get example_template_data ''meta'') ''name'')"
    "map_of ?l (snd (getTemplatePath example_manager ''demo'' (Some ''project''))) \<noteq> Some Dir"
    "path_join [templatesDir example_manager, ''project'', ''demo'' @ ''.json''] \<noteq> indexPath example_manager"
    by code_simp+
  have dir: "category_dirs example_world (fst (getTemplatePath example_manager ''demo'' (Some ''project''))) = Some ?l"
    by code_simp
  have wr: "write_outcome example_world (path_join [templatesDir example_manager, ''project'', ''demo'' @ ''.json'']) = Completes"
    by (simp add: example_world_def)
  have keys: "map fst (templates (index (fst (snd ?run)))) = [''moved'', ''gone'', ''demo'']"
    by code_simp
  from createTemplate_registers [of example_manager "''demo''" example_world "''project''" example_template_data ?l]
    fresh pre dir wr
  obtain template tm' w' e where
    r: "?run = (Inr template, tm', w')"
    and t: "map_of (templates (index tm')) = (map_of (templates (index example_manager)))(''demo'' \<mapsto> e)"
    by blast
  from t have own: "map_of (templates (index tm')) ''demo'' \<noteq> None" by simp
  from t fresh(1) have plain: "map_of (templates (index tm')) ''hasOwnProperty'' = None" by simp
  from createTemplate_registers [of tm' "''demo''" w' "''workflow''" example_template_data ?l] own plain
  have "createTemplate tm' w' ''demo'' ''workflow'' example_template_data
          = (Inl (TemplateAlreadyExists ''demo''), tm', w')"
    by blast
  with fresh keys show ?thesis by (simp add: r)
qed

text \<open>
  A name without an entry is not always registered, and a name with an entry does
  not always meet the collision error. With a category outside the valid ones the
  call fails and the index gains nothing. After a template named \<^verbatim>\<open>hasOwnProperty\<close>
  was created, the call for the existing name \<^verbatim>\<open>moved\<close> throws a TypeError. And the
  call for the name \<^verbatim>\<open>__proto__\<close> succeeds and leaves the entries as they were.
\<close>

theorem createTemplate_registers_counterexample:
  "map_of (templates (index example_manager)) ''demo'' = None
   \<and> fst (createTemplate example_manager example_world ''demo'' ''bogus'' example_template_data)
       = Inl (InvalidCategory ''bogus'')
   \<and> templates (index (fst (snd
         (createTemplate example_manager example_world ''demo'' ''bogus'' example_template_data))))
       = templates (index example_manager)
   \<and> map fst (templates (index example_shadowed_manager)) = [''moved'', ''gone'', ''hasOwnProperty'']
   \<and> fst (createTemplate example_shadowed_manager example_world ''moved'' ''project'' example_template_data)
       = Inl TypeError
   \<and> map_of (templates (index example_manager)) ''__proto__'' = None
   \<and> \<not> isl (fst (createTemplate example_manager example_world ''__proto__'' ''project''
                    example_template_data))
   \<and> templates (index (fst (snd
         (createTemplate example_manager example_world ''__proto__'' ''project'' example_template_data))))
       = templates (index example_manager)"
  by code_simp

subsection \<open>Updating a template\<close>

lemma map_of_fold_define:
  "map_of (fold (\<lambda>k a. define_prop k (f k) a) ks acc) k =
     (if k \<in> set ks then Some (f k) else map_of acc k)"
  by (induction ks arbitrary: acc) (auto simp: map_of_define_prop)

lemma js_get_Obj: "js_get (Obj kvs) k = (case map_of kvs k of None \<Rightarrow> Undefined | Some x \<Rightarrow> x)"
  by (simp add: js_get_def)

lemma js_get_absent:
  assumes "k \<notin> fst ` set (own_props v)"
  shows "js_get v k = Undefined"
proof -
  from assms have "map_of (own_props v) k = None" by (simp add: map_of_eq_None_iff)
  then show ?thesis by (simp add: js_get_def)
qed

lemma js_get_spread:
  "js_get (Obj (spread v acc)) k =
     (if k \<in> fst ` set (own_props v) then js_get v k else js_get (Obj acc) k)"
  by (simp add: js_get_Obj spread_def map_of_fold_define)

lemma js_get_define:
  "js_get (Obj (define_prop k x kvs)) k' = (if k' = k then x else js_get (Obj kvs) k')"
  by (simp add: js_get_Obj map_of_define_prop)

lemma js_get_spread_empty: "js_get (Obj (spread v [])) k = js_get v k"
  by (simp add: js_get_spread js_get_absent)

lemma merge_template_meta:
  "js_get (js_get (merge_template existing updates t) ''meta'') k =
     (if k = ''lastModified'' then Str t
      else if k \<in> fst ` set (own_props (js_get updates ''meta'')) then js_get (js_get updates ''meta'') k
      else js_get (js_get existing ''meta'') k)"
  by (simp add: merge_template_def js_get_define js_get_spread js_get_absent)

lemma merge_template_field:
  "k \<noteq> ''meta'' \<Longrightarrow>
   js_get (merge_template existing updates t) k =
     (if k \<in> fst ` set (own_props updates) then js_get updates k else js_get existing k)"
  by (simp add: merge_template_def js_get_define js_get_spread js_get_absent)

lemma writeFileSync_written:
  "writeFileSync w ps p t = (None, w') \<Longrightarrow> readFileSync w' p = Inr t"
  by (auto simp: writeFileSync_def put_file_def readFileSync_def Let_def update_conv'
           split: option.splits if_splits write_outcome.splits)

lemma templateExists_true:
  "templateExists tm tid = Inr True \<Longrightarrow> map_of (templates (index tm)) tid \<noteq> None"
  by (auto simp: templateExists_def split: if_splits)

lemma updateTemplate_unfold:
  assumes "updateTemplate tm w tid updates = (Inr updated, tm', w')"
  shows "\<exists>existing old w2 ok.
      readTemplate tm w tid = Inr existing \<and> map_of (templates (index tm)) tid = Some old
    \<and> updated = merge_template existing updates (clock w (ticks w))
    \<and> writeFileSync (w\<lparr>ticks := Suc (ticks w)\<rparr>) (template_path tm tid None)
          (getTemplatePath tm tid None) (Json updated) = (None, w2)
    \<and> saveIndex (tm\<lparr>index := (index tm)\<lparr>templates := AList.update tid
          (old\<lparr>name := js_get (js_get updated ''meta'') ''name'',
               description := js_get (js_get updated ''meta'') ''description'',
               version := js_get (js_get updated ''meta'') ''version'',
               lastModified := js_get (js_get updated ''meta'') ''lastModified'',
               tags := js_or (js_get (js_get updated ''meta'') ''tags'') (Arr [])\<rparr>)
          (templates (index tm))\<rparr>\<rparr>) w2 = (ok, tm', w')"
proof -
  from assms have ex: "templateExists tm tid = Inr True"
    by (auto simp: updateTemplate_def split: sum.splits bool.splits)
  from templateExists_true [OF ex] obtain old where old: "map_of (templates (index tm)) tid = Some old"
    by auto
  show ?thesis
  proof (cases "readTemplate tm w tid")
    case (Inl e)
    with assms ex show ?thesis by (simp add: updateTemplate_def)
  next
    case (Inr existing)
    let ?w1 = "w\<lparr>ticks := Suc (ticks w)\<rparr>"
    let ?u = "merge_template existing updates (clock w (ticks w))"
    let ?p = "getTemplatePath tm tid None"
    obtain r w2 where wr: "writeFileSync ?w1 (template_path tm tid None) ?p (Json ?u) = (r, w2)"
      by (cases "writeFileSync ?w1 (template_path tm tid None) ?p (Json ?u)") auto
    from assms Inr ex have nn: "\<not> nullish existing" "\<not> nullish updates"
      by (auto simp: updateTemplate_def split: if_splits)
    let ?e = "old\<lparr>name := js_get (js_get ?u ''meta'') ''name'',
                 description := js_get (js_get ?u ''meta'') ''description'',
                 version := js_get (js_get ?u ''meta'') ''version'',
                 lastModified := js_get (js_get ?u ''meta'') ''lastModified'',
                 tags := js_or (js_get (js_get ?u ''meta'') ''tags'') (Arr [])\<rparr>"
    let ?tm1 = "tm\<lparr>index := (index tm)\<lparr>templates := AList.update tid ?e (templates (index tm))\<rparr>\<rparr>"
    have as: "assign_entry tm tid ?e = ?tm1"
      using old by (simp add: assign_entry_own)
    obtain ok tm2 w3 where sv: "saveIndex ?tm1 w2 = (ok, tm2, w3)"
      by (cases "saveIndex ?tm1 w2") auto
    from assms Inr ex nn wr old sv have "r = None \<and> updated = ?u \<and> tm' = tm2 \<and> w' = w3"
      by (cases r) (simp_all add: updateTemplate_def new_Date_def Let_def as)
    with Inr old wr sv show ?thesis by blast
  qed
qed

text \<open>
  C9. For an existing template id and an \<open>updates\<close> object that sets no \<^verbatim>\<open>id\<close> and
  whose \<^verbatim>\<open>meta\<close> sets no \<^verbatim>\<open>createdAt\<close>, a call of \<open>updateTemplate\<close> that returns leaves
  the template's \<^verbatim>\<open>id\<close>, the category of its index entry and its \<^verbatim>\<open>meta.createdAt\<close>
  unchanged, sets \<^verbatim>\<open>meta.lastModified\<close> to the time of the call, and keeps every field
  (and every field of \<^verbatim>\<open>meta\<close>) that \<open>updates\<close> does not mention at its previous
  value; the merged template is what is written to the template's file.
\<close>

theorem updateTemplate_frame:
  assumes "updateTemplate tm w tid updates = (Inr updated, tm', w')"
    and "''id'' \<notin> fst ` set (own_props updates)"
    and "''createdAt'' \<notin> fst ` set (own_props (js_get updates ''meta''))"
  shows "\<exists>existing old.
      readTemplate tm w tid = Inr existing \<and> map_of (templates (index tm)) tid = Some old
    \<and> js_get updated ''id'' = js_get existing ''id''
    \<and> js_get (js_get updated ''meta'') ''createdAt'' = js_get (js_get existing ''meta'') ''createdAt''
    \<and> js_get (js_get updated ''meta'') ''lastModified'' = Str (clock w (ticks w))
    \<and> (\<forall>k. k \<notin> fst ` set (own_props updates) \<and> k \<noteq> ''meta'' \<longrightarrow>
           js_get updated k = js_get existing k)
    \<and> (\<forall>k. k \<notin> fst ` set (own_props (js_get updates ''meta'')) \<and> k \<noteq> ''lastModified'' \<longrightarrow>
           js_get (js_get updated ''meta'') k = js_get (js_get existing ''meta'') k)
    \<and> (\<exists>e. map_of (templates (index tm')) tid = Some e \<and> category e = category old
            \<and> path e = path old \<and> createdAt e = createdAt old)
    \<and> map fst (templates (index tm')) = map fst (templates (index tm))
    \<and> readFileSync w' (getTemplatePath tm tid None) = Inr (Json updated)"
proof -
  from updateTemplate_unfold [OF assms(1)] obtain existing old w2 ok where
    rd: "readTemplate tm w tid = Inr existing" and old: "map_of (templates (index tm)) tid = Some old"
    and u: "updated = merge_template existing updates (clock w (ticks w))"
    and wr: "writeFileSync (w\<lparr>ticks := Suc (ticks w)\<rparr>) (template_path tm tid None)
          (getTemplatePath tm tid None) (Json updated) = (None, w2)"
    and sv: "saveIndex (tm\<lparr>index := (index tm)\<lparr>templates := AList.update tid
          (old\<lparr>name := js_get (js_get updated ''meta'') ''name'',
               description := js_get (js_get updated ''meta'') ''description'',
               version := js_get (js_get updated ''meta'') ''version'',
               lastModified := js_get (js_get updated ''meta'') ''lastModified'',
               tags := js_or (js_get (js_get updated ''meta'') ''tags'') (Arr [])\<rparr>)
          (templates (index tm))\<rparr>\<rparr>) w2 = (ok, tm', w')"
    by blast
  have 1: "js_get updated ''id'' = js_get existing ''id''"
    using assms(2) by (simp add: u merge_template_field)
  have 2: "js_get (js_get updated ''meta'') ''createdAt'' = js_get (js_get existing ''meta'') ''createdAt''"
    using assms(3) by (simp add: u merge_template_meta)
  have 3: "js_get (js_get updated ''meta'') ''lastModified'' = Str (clock w (ticks w))"
    by (simp add: u merge_template_meta)
  have 4: "\<forall>k. k \<notin> fst ` set (own_props updates) \<and> k \<noteq> ''meta'' \<longrightarrow> js_get updated k = js_get existing k"
    by (simp add: u merge_template_field)
  have 5: "\<forall>k. k \<notin> fst ` set (own_props (js_get updates ''meta'')) \<and> k \<noteq> ''lastModified'' \<longrightarrow>
           js_get (js_get updated ''meta'') k = js_get (js_get existing ''meta'') k"
    by (simp add: u merge_template_meta)
  note s = saveIndex_keeps [OF sv, of "getTemplatePath tm tid None"]
  from s have 6: "\<exists>e. map_of (templates (index tm')) tid = Some e \<and> category e = category old
            \<and> path e = path old \<and> createdAt e = createdAt old"
    by (simp add: update_conv')
  from old have "tid \<in> fst ` set (templates (index tm))"
    by (metis domI dom_map_of_conv_image_fst)
  with s have 7: "map fst (templates (index tm')) = map fst (templates (index tm))"
    by (simp add: update_keys)
  from s writeFileSync_written [OF wr]
  have 8: "readFileSync w' (getTemplatePath tm tid None) = Inr (Json updated)" by simp
  from rd old 1 2 3 4 5 6 7 8 show ?thesis by blast
qed

theorem updateTemplate_frame_witness:
  "''id'' \<notin> fst ` set (own_props example_updates)
   \<and> ''createdAt'' \<notin> fst ` set (own_props (js_get example_updates ''meta''))
   \<and> \<not> isl (fst (updateTemplate example_created_manager example_created_world ''demo'' example_updates))
   \<and> js_get (projr (fst (updateTemplate example_created_manager example_created_world
         ''demo'' example_updates))) ''id'' = Str ''demo''
   \<and> js_get (js_get (projr (fst (updateTemplate example_created_manager example_created_world
         ''demo'' example_updates))) ''meta'') ''createdAt'' = Str ''now''
   \<and> js_get (js_get (projr (fst (updateTemplate example_created_manager example_created_world
         ''demo'' example_updates))) ''meta'') ''lastModified'' = Str ''later''
   \<and> js_get (js_get (projr (fst (updateTemplate example_created_manager example_created_world
         ''demo'' example_updates))) ''meta'') ''name'' = Str ''Demo''"
proof -
  let ?run = "updateTemplate example_created_manager example_created_world ''demo'' example_updates"
  have h: "''id'' \<notin> fst ` set (own_props example_updates)"
    "''createdAt'' \<notin> fst ` set (own_props (js_get example_updates ''meta''))"
    "''name'' \<notin> fst ` set (own_props (js_get example_updates ''meta''))"
    by code_simp+
  have ok: "\<not> isl (fst ?run)" by code_simp
  then obtain u where u: "fst ?run = Inr u" by (cases "fst ?run") auto
  then have run: "?run = (Inr u, fst (snd ?run), snd (snd ?run))" by (simp add: prod_eq_iff)
  have before: "js_get (projr (readTemplate example_created_manager example_created_world ''demo'')) ''id''
                  = Str ''demo''"
    "js_get (js_get (projr (readTemplate example_created_manager example_created_world ''demo'')) ''meta'')
        ''createdAt'' = Str ''now''"
    "js_get (js_get (projr (readTemplate example_created_manager example_created_world ''demo'')) ''meta'')
        ''name'' = Str ''Demo''"
    "clock example_created_world (ticks example_created_world) = ''later''"
    by code_simp+
  from updateTemplate_frame [OF run h(1,2)] obtain existing where
    e: "readTemplate example_created_manager example_created_world ''demo'' = Inr existing"
    "js_get u ''id'' = js_get existing ''id''"
    "js_get (js_get u ''meta'') ''createdAt'' = js_get (js_get existing ''meta'') ''createdAt''"
    "js_get (js_get u ''meta'') ''lastModified''
       = Str (clock example_created_world (ticks example_created_world))"
    "\<forall>k. k \<notin> fst ` set (own_props (js_get example_updates ''meta'')) \<and> k \<noteq> ''lastModified'' \<longrightarrow>
           js_get (js_get u ''meta'') k = js_get (js_get existing ''meta'') k"
    by blast
  from e(5) h(3) have "js_get (js_get u ''meta'') ''name'' = js_get (js_get existing ''meta'') ''name''"
    by simp
  with e before h ok show ?thesis by (simp add: u)
qed

subsection \<open>Lifecycle transitions\<close>

lemma transition_invalid:
  "map_of (projects pf) nm = Some p \<Longrightarrow> stage p \<notin> set (allowed_from opn) \<Longrightarrow>
     transition opn nm now pf = (Inl InvalidTransition, pf)"
  by (simp add: transition_def)

lemma transition_success_allowed:
  "transition opn nm now pf = (Inr u, pf') \<Longrightarrow>
     \<exists>p. map_of (projects pf) nm = Some p \<and> stage p \<in> set (allowed_from opn)"
  by (auto simp: transition_def split: option.splits if_splits)

lemma transition_failure_unchanged:
  "transition opn nm now pf = (Inl e, pf') \<Longrightarrow> pf' = pf"
  by (auto simp: transition_def split: option.splits if_splits)

lemma transition_moves:
  assumes "map_of (projects pf) nm = Some p" and "stage p \<in> set (allowed_from opn)"
    and "\<not> relocation_fault pf nm" and "nm \<in> set (containers pf (stage p))"
    and "nm \<notin> set (containers pf (destination opn))"
  shows "\<exists>pf'. transition opn nm now pf = (Inr (), pf')
           \<and> map_option stage (map_of (projects pf') nm) = Some (destination opn)
           \<and> nm \<in> set (containers pf' (destination opn))
           \<and> nm \<notin> set (containers pf' (stage p))"
proof -
  from assms(4,5) have ne: "stage p \<noteq> destination opn" by auto
  with assms show ?thesis
    by (simp add: transition_def relocate_def update_conv')
qed

text \<open>
  C4. A lifecycle transition (start, ship, pause, fail, bury, archive) of a project
  of the index succeeds only when the project's recorded stage is among the
  operation's allowed sources; otherwise it fails with \<open>InvalidTransition\<close>, and a
  failed transition changes nothing. In particular ship fails with
  \<open>InvalidTransition\<close> on a project in MAYBE, and on a project in NOW whose directory
  can be relocated it succeeds and moves the project to DONE.
\<close>

theorem transition_legality:
  "(map_of (projects pf) nm = Some p \<and> stage p \<notin> set (allowed_from opn) \<longrightarrow>
      transition opn nm now pf = (Inl InvalidTransition, pf))
   \<and> (\<forall>u pf'. transition opn nm now pf = (Inr u, pf') \<longrightarrow>
        (\<exists>q. map_of (projects pf) nm = Some q \<and> stage q \<in> set (allowed_from opn)))
   \<and> (\<forall>e pf'. transition opn nm now pf = (Inl e, pf') \<longrightarrow> pf' = pf)
   \<and> (map_of (projects pf) nm = Some p \<and> stage p = MAYBE \<longrightarrow>
        transition Ship nm now pf = (Inl InvalidTransition, pf))
   \<and> (map_of (projects pf) nm = Some p \<and> stage p = NOW \<and> \<not> relocation_fault pf nm
        \<and> nm \<in> set (containers pf NOW) \<and> nm \<notin> set (containers pf DONE) \<longrightarrow>
        (\<exists>pf'. transition Ship nm now pf = (Inr (), pf')
           \<and> map_option stage (map_of (projects pf') nm) = Some DONE
           \<and> nm \<in> set (containers pf' DONE) \<and> nm \<notin> set (containers pf' NOW)))"
proof (intro conjI allI impI)
  assume "map_of (projects pf) nm = Some p \<and> stage p \<notin> set (allowed_from opn)"
  then show "transition opn nm now pf = (Inl InvalidTransition, pf)"
    by (simp add: transition_invalid)
next
  fix u pf' assume "transition opn nm now pf = (Inr u, pf')"
  then show "\<exists>q. map_of (projects pf) nm = Some q \<and> stage q \<in> set (allowed_from opn)"
    by (rule transition_success_allowed)
next
  fix e pf' assume "transition opn nm now pf = (Inl e, pf')"
  then show "pf' = pf" by (rule transition_failure_unchanged)
next
  assume "map_of (projects pf) nm = Some p \<and> stage p = MAYBE"
  then show "transition Ship nm now pf = (Inl InvalidTransition, pf)"
    by (simp add: transition_invalid)
next
  assume h: "map_of (projects pf) nm = Some p \<and> stage p = NOW \<and> \<not> relocation_fault pf nm
        \<and> nm \<in> set (containers pf NOW) \<and> nm \<notin> set (containers pf DONE)"
  with transition_moves [of pf nm p Ship now]
  show "\<exists>pf'. transition Ship nm now pf = (Inr (), pf')
           \<and> map_option stage (map_of (projects pf') nm) = Some DONE
           \<and> nm \<in> set (containers pf' DONE) \<and> nm \<notin> set (containers pf' NOW)"
    by simp
qed

theorem transition_legality_witness:
  "map_option stage (map_of (projects example_portfolio) ''y'') = Some MAYBE
   \<and> fst (transition Ship ''y'' ''t1'' example_portfolio) = Inl InvalidTransition
   \<and> map_option stage (map_of (projects example_portfolio) ''x'') = Some NOW
   \<and> fst (transition Ship ''x'' ''t1'' example_portfolio) = Inr ()
   \<and> map_option stage (map_of (projects (snd (transition Ship ''x'' ''t1'' example_portfolio))) ''x'')
       = Some DONE
   \<and> containers (snd (transition Ship ''x'' ''t1'' example_portfolio)) DONE = [''x'']
   \<and> containers (snd (transition Ship ''x'' ''t1'' example_portfolio)) NOW = []"
proof -
  let ?x = "\<lparr>stage = NOW, project_path = ''.now/x'', project_createdAt = ''t0'',
                  project_lastModified = ''t0'', project_note = None\<rparr>"
  let ?y = "\<lparr>stage = MAYBE, project_path = ''.maybe/y'', project_createdAt = ''t0'',
                  project_lastModified = ''t0'', project_note = Some ''parked''\<rparr>"
  have y: "map_of (projects example_portfolio) ''y'' = Some ?y"
    and x: "map_of (projects example_portfolio) ''x'' = Some ?x"
    by (simp_all add: example_portfolio_def)
  have fs: "\<not> relocation_fault example_portfolio ''x''" "''x'' \<in> set (containers example_portfolio NOW)"
    "''x'' \<notin> set (containers example_portfolio DONE)"
    by (simp_all add: example_portfolio_def)
  from transition_legality [of example_portfolio "''y''" ?y Ship "''t1''"] y
  have 1: "transition Ship ''y'' ''t1'' example_portfolio = (Inl InvalidTransition, example_portfolio)"
    by simp
  from transition_legality [of example_portfolio "''x''" ?x Ship "''t1''"] x fs
  obtain pf' where 2: "transition Ship ''x'' ''t1'' example_portfolio = (Inr (), pf')"
    "map_option stage (map_of (projects pf') ''x'') = Some DONE"
    by auto
  have 3: "containers (snd (transition Ship ''x'' ''t1'' example_portfolio)) DONE = [''x'']"
    "containers (snd (transition Ship ''x'' ''t1'' example_portfolio)) NOW = []"
    by code_simp+
  from 1 2 3 x y show ?thesis by simp
qed

text \<open>
  C7. When the physical relocation of the project's directory fails during a stage
  transition, the operation reports \<open>FilesystemFailure\<close> and index and directories
  are left as they were; a filesystem fault during pause of a project in NOW leaves
  its recorded stage NOW and its directory under the NOW container.
\<close>

theorem failed_relocation_leaves_state:
  "(map_of (projects pf) nm = Some p \<and> stage p \<in> set (allowed_from opn)
      \<and> relocate pf nm (stage p) (destination opn) = None \<longrightarrow>
      transition opn nm now pf = (Inl FilesystemFailure, pf))
   \<and> (map_of (projects pf) nm = Some p \<and> stage p = NOW \<and> nm \<in> set (containers pf NOW)
      \<and> relocation_fault pf nm \<longrightarrow>
      (\<exists>pf'. transition Pause nm now pf = (Inl FilesystemFailure, pf')
         \<and> map_option stage (map_of (projects pf') nm) = Some NOW
         \<and> nm \<in> set (containers pf' NOW) \<and> projects pf' = projects pf
         \<and> containers pf' = containers pf))"
  by (simp add: transition_def relocate_def)

theorem failed_relocation_leaves_state_witness:
  "map_option stage (map_of (projects example_faulty_portfolio) ''x'') = Some NOW
   \<and> relocation_fault example_faulty_portfolio ''x''
   \<and> fst (transition Pause ''x'' ''t1'' example_faulty_portfolio) = Inl FilesystemFailure
   \<and> map_option stage (map_of (projects (snd (transition Pause ''x'' ''t1'' example_faulty_portfolio))) ''x'')
       = Some NOW
   \<and> containers (snd (transition Pause ''x'' ''t1'' example_faulty_portfolio)) NOW = [''x'']"
proof -
  let ?x = "\<lparr>stage = NOW, project_path = ''.now/x'', project_createdAt = ''t0'',
                  project_lastModified = ''t0'', project_note = None\<rparr>"
  have x: "map_of (projects example_faulty_portfolio) ''x'' = Some ?x"
    "''x'' \<in> set (containers example_faulty_portfolio NOW)"
    "relocation_fault example_faulty_portfolio ''x''"
    "containers example_faulty_portfolio NOW = [''x'']"
    by (simp_all add: example_faulty_portfolio_def example_portfolio_def)
  from failed_relocation_leaves_state [of example_faulty_portfolio "''x''" ?x Pause "''t1''"] x
  obtain pf' where "transition Pause ''x'' ''t1'' example_faulty_portfolio = (Inl FilesystemFailure, pf')"
    "map_option stage (map_of (projects pf') ''x'') = Some NOW" "containers pf' = containers example_faulty_portfolio"
    by auto
  with x show ?thesis by simp
qed

end
